theory Spec2Isabelle
  imports Complex_Main "HOL-Library.Char_ord" "HOL-Library.List_Lexorder"
begin

section \<open>Common Python notions\<close>

text \<open>
  Exceptions of the source are values. Scores, which the source computes in floating
  point, are exact rationals here (reals where the sigmoid needs \<open>exp\<close> and \<open>ln\<close>):
  the properties below are about which entries contribute and with which term, not
  about rounding.
\<close>

datatype py_error = ZeroDivisionError | ValueError | KeyError | IndexError | AttributeError
  | TypeError

text \<open>
  \<open>str.strip()\<close>: a character is a code point below 256; the white space of Python
  among them is TAB, LF, VT, FF, CR, FS, GS, RS, US, SPACE, NEL and NBSP.
\<close>

definition py_isspace :: "char \<Rightarrow> bool" where
  "py_isspace c = (c \<in> {CHR 0x09, CHR 0x0A, CHR 0x0B, CHR 0x0C, CHR 0x0D,
                         CHR 0x1C, CHR 0x1D, CHR 0x1E, CHR 0x1F, CHR 0x20,
                         CHR 0x85, CHR 0xA0})"

definition strip :: "string \<Rightarrow> string" where
  "strip s = rev (dropWhile py_isspace (rev (dropWhile py_isspace s)))"

text \<open>
  \<open>sorted(d.items(), key=lambda x: x[1], reverse=True)\<close>: Python's sort is stable, also
  with \<open>reverse=True\<close>, so entries of equal score keep their insertion order. The
  insertion sort of the library on the negated score does the same.
\<close>

definition sorted_desc :: "('a \<times> rat) list \<Rightarrow> ('a \<times> rat) list" where
  "sorted_desc items = sort_key (\<lambda>x. - snd x) items"

text \<open>
  \<open>d[key] += s\<close> on a \<open>defaultdict(float)\<close>: an insertion-ordered dictionary as an
  association list; a new key is appended with \<open>0.0 + s\<close>, an old one keeps its place.
\<close>

fun add_score :: "'a \<Rightarrow> rat \<Rightarrow> ('a \<times> rat) list \<Rightarrow> ('a \<times> rat) list" where
  "add_score a s [] = [(a, 0 + s)]"
| "add_score a s ((b, t) # d) = (if a = b then (b, t + s) # d else (b, t) # add_score a s d)"

section \<open>The standalone RRF reranker (rrf\_rerank.py)\<close>

text \<open>
  A cell of a submission file as \<open>pandas.read_csv\<close> gives it: \<open>None\<close> is NaN,
  \<open>Some s\<close> a string. A data frame is the number of its \<open>article_id_*\<close> /
  \<open>image_id_*\<close> columns and its rows; a row is the query id and the cells of those
  columns in the order of
  \<open>sorted(article_cols, key=lambda x: int(x.split('_')[-1]))\<close>, so the cell of
  column \<open>article_id_r\<close> of a file with columns \<open>1..L\<close> is at position \<open>r\<close>
  (counting from 1).
\<close>

type_synonym cell = "string option"

record dataframe =
  n_article_cols :: nat
  df_rows :: "(string \<times> cell list) list"

text \<open>
  \<open>pd.isna(article_id) or str(article_id).strip() == '#' or str(article_id).strip() == ''\<close>
\<close>

fun is_missing :: "cell \<Rightarrow> bool" where
  "is_missing None = True"
| "is_missing (Some s) = (strip s = ''#'' \<or> strip s = '''')"

text \<open>\<open>rrf_score(rank, k)\<close>; the division raises when \<open>k + rank = 0\<close>.\<close>

definition rrf_score :: "int \<Rightarrow> int \<Rightarrow> py_error + rat" where
  "rrf_score rank k =
     (if rank = 0 then Inr 0
      else if k + rank = 0 then Inl ZeroDivisionError
      else Inr (1 / of_int (k + rank)))"

text \<open>\<open>df[df['query_id'] == query_id]\<close>, then \<open>.empty\<close> and \<open>.iloc[0]\<close>.\<close>

definition query_row :: "dataframe \<Rightarrow> string \<Rightarrow> cell list option" where
  "query_row df query_id =
     (case filter (\<lambda>r. fst r = query_id) (df_rows df) of
        [] \<Rightarrow> None
      | r # _ \<Rightarrow> Some (snd r))"

text \<open>The loop that looks for a first valid article and breaks there.\<close>

fun has_valid_articles :: "cell list \<Rightarrow> bool" where
  "has_valid_articles [] = False"
| "has_valid_articles (c # cs) = (if \<not> is_missing c then True else has_valid_articles cs)"

definition file_has_valid_articles :: "dataframe \<Rightarrow> string \<Rightarrow> bool" where
  "file_has_valid_articles df query_id =
     (case query_row df query_id of
        None \<Rightarrow> False
      | Some cells \<Rightarrow> has_valid_articles cells)"

text \<open>
  The inner loop of normal mode,
  \<open>for rank, col in enumerate(article_cols, 1)\<close>: a missing cell is skipped by
  \<open>continue\<close>, the rank still advances.
\<close>

fun collect_row :: "int \<Rightarrow> int \<Rightarrow> cell list \<Rightarrow> (string \<times> rat) list
                    \<Rightarrow> py_error + (string \<times> rat) list" where
  "collect_row k rank [] article_scores = Inr article_scores"
| "collect_row k rank (c # cs) article_scores =
     (if is_missing c then collect_row k (rank + 1) cs article_scores
      else (case c of
              None \<Rightarrow> collect_row k (rank + 1) cs article_scores
            | Some article_id \<Rightarrow>
                (case rrf_score rank k of
                   Inl e \<Rightarrow> Inl e
                 | Inr s \<Rightarrow> collect_row k (rank + 1) cs (add_score article_id s article_scores))))"

text \<open>The loop \<open>for df in dfs\<close> around it; the query is known to be in every file.\<close>

fun collect_files :: "int \<Rightarrow> string \<Rightarrow> dataframe list \<Rightarrow> (string \<times> rat) list
                      \<Rightarrow> py_error + (string \<times> rat) list" where
  "collect_files k query_id [] article_scores = Inr article_scores"
| "collect_files k query_id (df # dfs) article_scores =
     (case query_row df query_id of
        None \<Rightarrow> Inl IndexError
      | Some cells \<Rightarrow>
          (case collect_row k 1 cells article_scores of
             Inl e \<Rightarrow> Inl e
           | Inr article_scores' \<Rightarrow> collect_files k query_id dfs article_scores'))"

text \<open>
  \<open>for i in range(top_n): sorted_articles[i][0] if i < len(sorted_articles) else '#'\<close>
\<close>

definition fill_row :: "int \<Rightarrow> (string \<times> rat) list \<Rightarrow> string list" where
  "fill_row top_n sorted_articles =
     map (\<lambda>i. if i < length sorted_articles then fst (sorted_articles ! i) else ''#'')
         [0 ..< nat top_n]"

definition empty_row :: "int \<Rightarrow> string list" where
  "empty_row top_n = map (\<lambda>i. ''#'') [0 ..< nat top_n]"

text \<open>The body of the loop over the queries in normal (anti-bias) mode.\<close>

definition rrf_query :: "dataframe list \<Rightarrow> int \<Rightarrow> int \<Rightarrow> string \<Rightarrow> py_error + string list" where
  "rrf_query dfs k top_n query_id =
     (if \<not> list_all (\<lambda>df. file_has_valid_articles df query_id) dfs
      then Inr (empty_row top_n)
      else (case collect_files k query_id dfs [] of
              Inl e \<Rightarrow> Inl e
            | Inr article_scores \<Rightarrow> Inr (fill_row top_n (sorted_desc article_scores))))"

text \<open>
  \<open>top_n\<close> defaults to the largest column count (\<open>max\<close> of an empty list raises);
  \<open>all_query_ids\<close> is the sorted set of the query ids of all files.
\<close>

definition output_size :: "dataframe list \<Rightarrow> int option \<Rightarrow> py_error + int" where
  "output_size dfs top_n =
     (case top_n of
        Some n \<Rightarrow> Inr n
      | None \<Rightarrow> (if dfs = [] then Inl ValueError
                 else Inr (int (Max (set (map n_article_cols dfs))))))"

definition all_query_ids :: "dataframe list \<Rightarrow> string list" where
  "all_query_ids dfs = sort (remdups (concat (map (\<lambda>df. map fst (df_rows df)) dfs)))"

fun rrf_loop :: "(string \<Rightarrow> py_error + string list) \<Rightarrow> string list
                 \<Rightarrow> py_error + (string \<times> string list) list" where
  "rrf_loop body [] = Inr []"
| "rrf_loop body (q # qs) =
     (case body q of
        Inl e \<Rightarrow> Inl e
      | Inr row \<Rightarrow> (case rrf_loop body qs of
                      Inl e \<Rightarrow> Inl e
                    | Inr rows \<Rightarrow> Inr ((q, row) # rows)))"

text \<open>
  \<open>perform_rrf_reranking\<close>, from the loaded frames to the rows of the result frame.
  \<open>pd.DataFrame([])\<close> has no \<open>query_id\<close> column, so \<open>sort_values\<close> raises when there
  is no query at all.
\<close>

definition perform_rrf_reranking ::
  "dataframe list \<Rightarrow> int \<Rightarrow> int option \<Rightarrow> py_error + (string \<times> string list) list" where
  "perform_rrf_reranking dfs k top_n =
     (case output_size dfs top_n of
        Inl e \<Rightarrow> Inl e
      | Inr n \<Rightarrow>
          (case rrf_loop (rrf_query dfs k n) (all_query_ids dfs) of
             Inl e \<Rightarrow> Inl e
           | Inr reranked_results \<Rightarrow>
               (if reranked_results = [] then Inl KeyError
                else Inr (sort_key fst reranked_results))))"

subsection \<open>Adaptive mode\<close>

text \<open>
  First pass: the count of leading valid articles of a row, the loop breaking at the
  first missing cell; a file without the query counts 0.
\<close>

fun valid_article_count :: "cell list \<Rightarrow> nat" where
  "valid_article_count [] = 0"
| "valid_article_count (c # cs) =
     (if \<not> is_missing c then 1 + valid_article_count cs else 0)"

definition query_article_count :: "dataframe \<Rightarrow> string \<Rightarrow> nat" where
  "query_article_count df query_id =
     (case query_row df query_id of
        None \<Rightarrow> 0
      | Some cells \<Rightarrow> valid_article_count cells)"

text \<open>
  \<open>dynamic_limit = min(min_article_count * 2, max(query_article_counts))\<close>; \<open>min\<close> of
  an empty list raises.
\<close>

definition dynamic_limit :: "nat list \<Rightarrow> py_error + nat" where
  "dynamic_limit query_article_counts =
     (if query_article_counts = [] then Inl ValueError
      else Inr (min (Min (set query_article_counts) * 2) (Max (set query_article_counts))))"

text \<open>
  Second pass, the loop over the columns of one file: it breaks once
  \<open>articles_used >= dynamic_limit\<close>; a missing cell is skipped and advances the rank
  but not \<open>articles_used\<close>.
\<close>

fun collect_row_adaptive :: "int \<Rightarrow> nat \<Rightarrow> int \<Rightarrow> nat \<Rightarrow> cell list \<Rightarrow> (string \<times> rat) list
                             \<Rightarrow> py_error + (string \<times> rat) list" where
  "collect_row_adaptive k limit rank articles_used [] article_scores = Inr article_scores"
| "collect_row_adaptive k limit rank articles_used (c # cs) article_scores =
     (if articles_used \<ge> limit then Inr article_scores
      else if is_missing c then collect_row_adaptive k limit (rank + 1) articles_used cs article_scores
      else (case c of
              None \<Rightarrow> collect_row_adaptive k limit (rank + 1) articles_used cs article_scores
            | Some article_id \<Rightarrow>
                (case rrf_score rank k of
                   Inl e \<Rightarrow> Inl e
                 | Inr s \<Rightarrow> collect_row_adaptive k limit (rank + 1) (articles_used + 1) cs
                             (add_score article_id s article_scores))))"

fun collect_files_adaptive :: "int \<Rightarrow> nat \<Rightarrow> string \<Rightarrow> dataframe list \<Rightarrow> (string \<times> rat) list
                               \<Rightarrow> py_error + (string \<times> rat) list" where
  "collect_files_adaptive k limit query_id [] article_scores = Inr article_scores"
| "collect_files_adaptive k limit query_id (df # dfs) article_scores =
     (case query_row df query_id of
        None \<Rightarrow> Inl IndexError
      | Some cells \<Rightarrow>
          (case collect_row_adaptive k limit 1 0 cells article_scores of
             Inl e \<Rightarrow> Inl e
           | Inr article_scores' \<Rightarrow> collect_files_adaptive k limit query_id dfs article_scores'))"

text \<open>The body of the loop over the queries in adaptive mode.\<close>

definition rrf_query_adaptive ::
  "dataframe list \<Rightarrow> int \<Rightarrow> int \<Rightarrow> string \<Rightarrow> py_error + string list" where
  "rrf_query_adaptive dfs k top_n query_id =
     (let query_article_counts = map (\<lambda>df. query_article_count df query_id) dfs;
          valid_files = map (\<lambda>n. n > 0) query_article_counts
      in if \<not> list_all (\<lambda>b. b) valid_files then Inr (empty_row top_n)
         else (case dynamic_limit query_article_counts of
                 Inl e \<Rightarrow> Inl e
               | Inr limit \<Rightarrow>
                   (case collect_files_adaptive k limit query_id dfs [] of
                      Inl e \<Rightarrow> Inl e
                    | Inr article_scores \<Rightarrow>
                        Inr (fill_row top_n (sorted_desc article_scores)))))"

definition perform_rrf_reranking_adaptive ::
  "dataframe list \<Rightarrow> int \<Rightarrow> int option \<Rightarrow> py_error + (string \<times> string list) list" where
  "perform_rrf_reranking_adaptive dfs k top_n =
     (case output_size dfs top_n of
        Inl e \<Rightarrow> Inl e
      | Inr n \<Rightarrow>
          (case rrf_loop (rrf_query_adaptive dfs k n) (all_query_ids dfs) of
             Inl e \<Rightarrow> Inl e
           | Inr reranked_results \<Rightarrow>
               (if reranked_results = [] then Inl KeyError
                else Inr (sort_key fst reranked_results))))"

subsection \<open>What the reranker is meant to compute\<close>

text \<open>
  The notions the properties are stated with, in the words of the specification. The
  valid entries of a row are the pairs of a column index \<open>r\<close>, counted from 1, and the
  item of that column, for the columns whose cell is not missing; \<open>entries_from\<close> is
  the same list by recursion on the row, starting at index \<open>n\<close>.
\<close>

definition valid_entries :: "cell list \<Rightarrow> (nat \<times> string) list" where
  "valid_entries cells =
     concat (map (\<lambda>r. case cells ! (r - 1) of
                          None \<Rightarrow> []
                        | Some a \<Rightarrow> if is_missing (Some a) then [] else [(r, a)])
                 [1 ..< Suc (length cells)])"

fun entries_from :: "nat \<Rightarrow> cell list \<Rightarrow> (nat \<times> string) list" where
  "entries_from n [] = []"
| "entries_from n (c # cs) =
     (case c of None \<Rightarrow> [] | Some a \<Rightarrow> if is_missing (Some a) then [] else [(n, a)])
     @ entries_from (Suc n) cs"

text \<open>The RRF term of rank \<open>r\<close>, and its addition to the score of an entry's item.\<close>

definition rrf_term :: "int \<Rightarrow> nat \<Rightarrow> rat" where
  "rrf_term k r = 1 / of_int (k + int r)"

definition add_entry :: "int \<Rightarrow> nat \<times> string \<Rightarrow> (string \<times> rat) list \<Rightarrow> (string \<times> rat) list" where
  "add_entry k e d = add_score (snd e) (rrf_term k (fst e)) d"

text \<open>Some entry has \<open>k + rank = 0\<close>: there the division of the source raises.\<close>

definition zero_denominator :: "int \<Rightarrow> (nat \<times> string) list \<Rightarrow> bool" where
  "zero_denominator k es = list_ex (\<lambda>e. k + int (fst e) = 0) es"

text \<open>The score a dictionary holds for a key, 0 when the key is absent.\<close>

definition score_of :: "('a \<times> rat) list \<Rightarrow> 'a \<Rightarrow> rat" where
  "score_of d a = (case map_of d a of None \<Rightarrow> 0 | Some s \<Rightarrow> s)"

text \<open>
  A file holds a query when one of its rows has that query id; its cells for the query
  are those of the first such row, and it has none when it does not hold the query. The
  queries of the input are those that some file holds. The width of the output is the
  given one, or the largest number of item columns of a file.
\<close>

definition holds_query :: "dataframe \<Rightarrow> string \<Rightarrow> bool" where
  "holds_query df query_id \<longleftrightarrow> (\<exists>r\<in>set (df_rows df). fst r = query_id)"

definition cells_of :: "dataframe \<Rightarrow> string \<Rightarrow> cell list" where
  "cells_of df query_id =
     (case map_of (df_rows df) query_id of None \<Rightarrow> [] | Some cells \<Rightarrow> cells)"

definition input_queries :: "dataframe list \<Rightarrow> string set" where
  "input_queries dfs = (\<Union>df\<in>set dfs. fst ` set (df_rows df))"

definition output_width :: "dataframe list \<Rightarrow> int option \<Rightarrow> nat" where
  "output_width dfs top_n =
     (case top_n of Some n \<Rightarrow> nat n | None \<Rightarrow> Max (n_article_cols ` set dfs))"

text \<open>
  The valid entries of a file for a query, the fused score of an item: the sum over the
  files of \<open>1 / (k + rank)\<close> at the ranks where the item appears, and the items seen in
  some file.
\<close>

definition file_entries :: "dataframe \<Rightarrow> string \<Rightarrow> (nat \<times> string) list" where
  "file_entries df query_id = valid_entries (cells_of df query_id)"

definition fused_score :: "dataframe list \<Rightarrow> int \<Rightarrow> string \<Rightarrow> string \<Rightarrow> rat" where
  "fused_score dfs k query_id a =
     (\<Sum>df\<leftarrow>dfs. \<Sum>(r, b)\<leftarrow>file_entries df query_id. if b = a then 1 / of_int (k + int r) else 0)"

definition fused_items :: "dataframe list \<Rightarrow> string \<Rightarrow> string set" where
  "fused_items dfs query_id = (\<Union>df\<in>set dfs. snd ` set (file_entries df query_id))"

text \<open>A file is missing the query, or has no valid entry for it.\<close>

definition lacks_query :: "dataframe \<Rightarrow> string \<Rightarrow> bool" where
  "lacks_query df query_id \<longleftrightarrow>
     \<not> holds_query df query_id \<or> list_all is_missing (cells_of df query_id)"

text \<open>
  A row of width \<open>n\<close> holds the top \<open>n\<close> of the items by a score: the items, each once,
  are ranked with non-increasing score, the row is the first \<open>n\<close> of the ranking and
  sentinels fill what is left.
\<close>

definition top_by_score :: "nat \<Rightarrow> (string \<Rightarrow> rat) \<Rightarrow> string set \<Rightarrow> string list \<Rightarrow> bool" where
  "top_by_score n score items row \<longleftrightarrow>
     (\<exists>ranked. distinct ranked \<and> set ranked = items
        \<and> sorted_wrt (\<lambda>a b. score b \<le> score a) ranked
        \<and> row = take n ranked @ replicate (n - length ranked) ''#'')"

definition sentinel_row :: "nat \<Rightarrow> string list" where
  "sentinel_row n = replicate n ''#''"

text \<open>
  Adaptive mode. The count of a file for a query is the number of its leading
  consecutive valid entries, \<open>m\<close> is the least count over the files and the cap is
  \<open>min (2 m) (the greatest count)\<close>. The entries of a file within the cap are its valid
  entries at a rank of at most the cap. In a ranked list the sentinels are trailing
  padding: every cell after the leading valid ones is missing.
\<close>

definition leading_count :: "dataframe \<Rightarrow> string \<Rightarrow> nat" where
  "leading_count df query_id =
     length (takeWhile (\<lambda>c. \<not> is_missing c) (cells_of df query_id))"

definition adaptive_cap :: "dataframe list \<Rightarrow> string \<Rightarrow> nat" where
  "adaptive_cap dfs query_id =
     (let counts = map (\<lambda>df. leading_count df query_id) dfs
      in min (2 * Min (set counts)) (Max (set counts)))"

definition rank_capped_entries :: "dataframe list \<Rightarrow> string \<Rightarrow> dataframe \<Rightarrow> (nat \<times> string) list" where
  "rank_capped_entries dfs query_id df =
     filter (\<lambda>e. fst e \<le> adaptive_cap dfs query_id) (file_entries df query_id)"

definition rank_capped_score :: "dataframe list \<Rightarrow> int \<Rightarrow> string \<Rightarrow> string \<Rightarrow> rat" where
  "rank_capped_score dfs k query_id a =
     (\<Sum>df\<leftarrow>dfs. \<Sum>(r, b)\<leftarrow>rank_capped_entries dfs query_id df. if b = a then 1 / of_int (k + int r) else 0)"

definition rank_capped_items :: "dataframe list \<Rightarrow> string \<Rightarrow> string set" where
  "rank_capped_items dfs query_id =
     (\<Union>df\<in>set dfs. snd ` set (rank_capped_entries dfs query_id df))"

definition sentinels_trailing :: "dataframe \<Rightarrow> string \<Rightarrow> bool" where
  "sentinels_trailing df query_id \<longleftrightarrow>
     list_all is_missing (dropWhile (\<lambda>c. \<not> is_missing c) (cells_of df query_id))"

text \<open>
  The first \<open>cap\<close> valid entries of a file, which is what the loop of adaptive mode
  takes; on a row with trailing sentinels they are the entries within the cap.
\<close>

definition capped_entries :: "dataframe list \<Rightarrow> string \<Rightarrow> dataframe \<Rightarrow> (nat \<times> string) list" where
  "capped_entries dfs query_id df = take (adaptive_cap dfs query_id) (file_entries df query_id)"

section \<open>The search pipeline (search\_pipeline.py)\<close>

subsection \<open>Dictionaries and strings\<close>

text \<open>
  A Python \<open>dict\<close> is an association list in insertion order with distinct keys:
  \<open>d[k] = v\<close> keeps the place of an old key and appends a new one, \<open>d.update(e)\<close>
  assigns the items of \<open>e\<close> in order, \<open>d.get(k, default)\<close> and \<open>k in d\<close> look up.
\<close>

fun dict_set :: "'k \<Rightarrow> 'v \<Rightarrow> ('k \<times> 'v) list \<Rightarrow> ('k \<times> 'v) list" where
  "dict_set k v [] = [(k, v)]"
| "dict_set k v ((k', v') # d) = (if k = k' then (k', v) # d else (k', v') # dict_set k v d)"

definition dict_update :: "('k \<times> 'v) list \<Rightarrow> ('k \<times> 'v) list \<Rightarrow> ('k \<times> 'v) list" where
  "dict_update d e = fold (\<lambda>kv. dict_set (fst kv) (snd kv)) e d"

definition dict_get :: "('k \<times> 'v) list \<Rightarrow> 'k \<Rightarrow> 'v \<Rightarrow> 'v" where
  "dict_get d k dflt = (case map_of d k of None \<Rightarrow> dflt | Some v \<Rightarrow> v)"

definition dict_of_items :: "('k \<times> 'v) list \<Rightarrow> ('k \<times> 'v) list" where
  "dict_of_items items = dict_update [] items"

definition dict_keys :: "('k \<times> 'v) list \<Rightarrow> 'k list" where
  "dict_keys d = map fst d"

definition dict_values :: "('k \<times> 'v) list \<Rightarrow> 'v list" where
  "dict_values d = map snd d"

text \<open>\<open>s.startswith(p)\<close>, \<open>s.replace(old, new)\<close> for a non-empty \<open>old\<close>, \<open>str(n)\<close>.\<close>

definition startswith :: "string \<Rightarrow> string \<Rightarrow> bool" where
  "startswith s p = (take (length p) s = p)"

fun py_replace :: "string \<Rightarrow> string \<Rightarrow> string \<Rightarrow> string" where
  "py_replace old new [] = []"
| "py_replace old new (c # s) =
     (if old \<noteq> [] \<and> take (length old) (c # s) = old
      then new @ py_replace old new (drop (length old) (c # s))
      else c # py_replace old new s)"

fun str_nat :: "nat \<Rightarrow> string" where
  "str_nat n =
     (if n < 10 then [char_of (48 + n)]
      else str_nat (n div 10) @ [char_of (48 + n mod 10)])"

text \<open>\<open>xs[:n]\<close>: a negative \<open>n\<close> counts from the end.\<close>

definition py_take :: "int \<Rightarrow> 'a list \<Rightarrow> 'a list" where
  "py_take n xs = (if 0 \<le> n then take (nat n) xs else take (length xs - nat (- n)) xs)"

subsection \<open>Configuration\<close>

text \<open>
  A model family as the dictionary \<open>family_config\<close> of the source, and the fields of
  the pipeline object that the image search reads. \<open>active_model_weights\<close> and
  \<open>active_families\<close> are attributes that exist only in single-model and in
  multi-model mode (\<open>hasattr\<close>): \<open>None\<close> is the absent attribute.
\<close>

record family =
  query_collections :: "string list"
  search_collection :: string
  family_weight :: rat

record pipeline =
  private_test_mode :: bool
  primary_checkpoint :: string
  enable_multi_model :: bool
  model_weights :: "(string \<times> rat) list"
  model_families :: "(string \<times> family) list option"
  active_model_weights :: "(string \<times> rat) list option"
  active_families :: "(string \<times> family) list option"
  article_to_images :: "(string \<times> string list) list"
  article_ranking_boost :: real
  rrf_k :: int
  multi_model_rrf_k :: int
  use_voting :: bool
  use_sigmoid_boosting :: bool
  similarity_weight :: real
  rank_weight :: real
  sigmoid_bias :: real
  max_boost_factor :: real

text \<open>
  The JSON configuration: for each database its \<open>weight\<close> (1.0 when the key is absent)
  and its \<open>query_collections\<close>, a list of dictionaries from view name to weight.
\<close>

record db_config =
  weight :: "rat option"
  db_query_collections :: "(string \<times> rat) list list"

text \<open>
  \<open>build_config_from_json\<close>: the families, keyed by the database name without
  \<open>Database_\<close>, and the flat table of view weights. A later entry for a name already
  there overwrites the earlier one, in both dictionaries.
\<close>

definition full_col_name :: "bool \<Rightarrow> string \<Rightarrow> string" where
  "full_col_name private col_name = (if private then ''Private_'' @ col_name else col_name)"

definition json_family :: "bool \<Rightarrow> string \<Rightarrow> db_config \<Rightarrow> family" where
  "json_family private db_name cfg =
     \<lparr>query_collections = map (\<lambda>kv. full_col_name private (fst kv)) (concat (db_query_collections cfg)),
      search_collection = db_name,
      family_weight = (case weight cfg of None \<Rightarrow> 1 | Some w \<Rightarrow> w)\<rparr>"

fun build_config_from_json ::
  "bool \<Rightarrow> (string \<times> db_config) list \<Rightarrow> (string \<times> family) list \<Rightarrow> (string \<times> rat) list
   \<Rightarrow> (string \<times> family) list \<times> (string \<times> rat) list" where
  "build_config_from_json private [] families weights = (families, weights)"
| "build_config_from_json private ((db_name, cfg) # config_data) families weights =
     build_config_from_json private config_data
       (dict_set (py_replace ''Database_'' '''' db_name) (json_family private db_name cfg) families)
       (fold (\<lambda>kv. dict_set (full_col_name private (fst kv)) (snd kv))
             (concat (db_query_collections cfg)) weights)"

text \<open>
  \<open>_build_legacy_config\<close> in multi-model and in single-model mode, from the weights
  given as parameters.
\<close>

record legacy_weights =
  primary_query_large_weight :: rat
  primary_summary_large_weight :: rat
  primary_concise_large_weight :: rat
  primary_query_base_weight :: rat
  primary_summary_base_weight :: rat
  primary_concise_base_weight :: rat
  h14_query_weight :: rat
  h14_summary_weight :: rat
  h14_concise_weight :: rat
  primary_large_family_weight :: rat
  primary_base_family_weight :: rat
  h14_laion_family_weight :: rat

definition database_mapping :: "(string \<times> string) list" where
  "database_mapping =
     [(''Initialized'', ''Initialized''), (''Flickr30k'', ''Flickr30k''),
      (''OpenEvents_v1'', ''Flickr30k'')]"

definition legacy_model_weights ::
  "string \<Rightarrow> bool \<Rightarrow> bool \<Rightarrow> bool \<Rightarrow> legacy_weights \<Rightarrow> (string \<times> rat) list" where
  "legacy_model_weights checkpoint h14 multi private w =
     (let base_model_weights =
        (if multi then
           [(''Query_'' @ checkpoint @ ''_Large'', primary_query_large_weight w),
            (''Summary_'' @ checkpoint @ ''_Large'', primary_summary_large_weight w),
            (''Concise_'' @ checkpoint @ ''_Large'', primary_concise_large_weight w),
            (''Query_'' @ checkpoint @ ''_Base'', primary_query_base_weight w),
            (''Summary_'' @ checkpoint @ ''_Base'', primary_summary_base_weight w),
            (''Concise_'' @ checkpoint @ ''_Base'', primary_concise_base_weight w)]
           @ (if h14 then
                [(''Query_Laion_H14'', h14_query_weight w),
                 (''Summary_Laion_H14'', h14_summary_weight w),
                 (''Concise_Laion_H14'', h14_concise_weight w)]
              else [])
         else
           [(''Query_'' @ checkpoint @ ''_Large'', primary_query_large_weight w),
            (''Summary_'' @ checkpoint @ ''_Large'', primary_summary_large_weight w),
            (''Concise_'' @ checkpoint @ ''_Large'', primary_concise_large_weight w)])
      in dict_of_items (map (\<lambda>kv. (full_col_name private (fst kv), snd kv))
                            (dict_of_items base_model_weights)))"

definition legacy_model_families ::
  "string \<Rightarrow> bool \<Rightarrow> bool \<Rightarrow> bool \<Rightarrow> legacy_weights
   \<Rightarrow> py_error + (string \<times> family) list option" where
  "legacy_model_families checkpoint h14 multi private w =
     (if \<not> multi then Inr None
      else (case map_of database_mapping checkpoint of
              None \<Rightarrow> Inl KeyError
            | Some database_name \<Rightarrow>
                (let base_families =
                   [(checkpoint @ ''-Large'',
                     \<lparr>query_collections =
                        [''Query_'' @ checkpoint @ ''_Large'', ''Summary_'' @ checkpoint @ ''_Large'',
                         ''Concise_'' @ checkpoint @ ''_Large''],
                      search_collection = ''Database_'' @ database_name @ ''_Large'',
                      family_weight = primary_large_family_weight w\<rparr>),
                    (checkpoint @ ''-Base'',
                     \<lparr>query_collections =
                        [''Query_'' @ checkpoint @ ''_Base'', ''Summary_'' @ checkpoint @ ''_Base'',
                         ''Concise_'' @ checkpoint @ ''_Base''],
                      search_collection = ''Database_'' @ database_name @ ''_Base'',
                      family_weight = primary_base_family_weight w\<rparr>)]
                   @ (if h14 then
                        [(''H14-Laion'',
                          \<lparr>query_collections =
                             [''Query_Laion_H14'', ''Summary_Laion_H14'', ''Concise_Laion_H14''],
                           search_collection = ''Database_Laion_H14'',
                           family_weight = h14_laion_family_weight w\<rparr>)]
                      else [])
                 in Inr (Some (dict_of_items
                          (map (\<lambda>kv. (fst kv,
                                  (snd kv)\<lparr>query_collections :=
                                     map (full_col_name private) (query_collections (snd kv))\<rparr>))
                               (dict_of_items base_families)))))))"

text \<open>
  The part of \<open>__init__\<close> that filters by weight: with the parameter
  \<open>enable_multi_model\<close> the active families are those of weight \<open>> 0\<close>, without it the
  active collections are those of weight \<open>> 0\<close>; an empty active set raises.
\<close>

definition active_of_families :: "(string \<times> family) list \<Rightarrow> (string \<times> family) list" where
  "active_of_families families = filter (\<lambda>kv. family_weight (snd kv) > 0) families"

definition active_of_weights :: "(string \<times> rat) list \<Rightarrow> (string \<times> rat) list" where
  "active_of_weights weights = filter (\<lambda>kv. snd kv > 0) weights"

definition filter_active :: "bool \<Rightarrow> pipeline \<Rightarrow> py_error + pipeline" where
  "filter_active multi self =
     (if multi then
        (case model_families self of
           None \<Rightarrow> Inl AttributeError
         | Some families \<Rightarrow>
             (if active_of_families families = [] then Inl ValueError
              else Inr (self\<lparr>active_families := Some (active_of_families families)\<rparr>)))
      else
        (if active_of_weights (model_weights self) = [] then Inl ValueError
         else Inr (self\<lparr>active_model_weights := Some (active_of_weights (model_weights self))\<rparr>)))"

subsection \<open>The vector store\<close>

text \<open>
  The store is a collaborator: what \<open>client.scroll\<close> and \<open>client.search\<close> answer is
  a parameter. A scroll for the embedding of a query in a view collection raises, finds
  no point, or finds a point with its vector (which may be \<open>None\<close>); a search in a
  collection, with or without a filter on the candidate image ids and with a limit,
  raises (\<open>None\<close>) or returns hits.
\<close>

datatype scroll_outcome = ScrollError | NoPoint | Point "real list option"

record hit =
  hit_image_id :: "string option"
  hit_score :: real

record qdrant =
  scroll :: "string \<Rightarrow> string \<Rightarrow> scroll_outcome"
  search :: "string \<Rightarrow> real list \<Rightarrow> string list option \<Rightarrow> int \<Rightarrow> hit list option"

text \<open>
  A result dictionary of the source: one with the boost of a filtered search, or one with
  the rank of a direct search.
\<close>

datatype result =
    Boosted (result_image_id: string) (result_score: real) (result_base_score: real)
            (result_ranking_boost: real) (result_article_rank: int)
  | Direct (result_rank: nat) (result_image_id: string) (result_score: real)

definition get_query_embedding :: "qdrant \<Rightarrow> string \<Rightarrow> string \<Rightarrow> real list option" where
  "get_query_embedding client collection_name query_id =
     (case scroll client collection_name query_id of
        ScrollError \<Rightarrow> None
      | NoPoint \<Rightarrow> None
      | Point v \<Rightarrow> v)"

text \<open>\<open>if query_vector:\<close> holds for a non-empty vector.\<close>

fun truthy :: "real list option \<Rightarrow> bool" where
  "truthy None = False"
| "truthy (Some []) = False"
| "truthy (Some (x # xs)) = True"

subsection \<open>The rank-aware booster\<close>

text \<open>
  \<open>math.exp\<close> raises OverflowError when its result exceeds the largest float; the
  source then takes 1 or 0 by the sign of the input. \<open>math.log\<close> raises ValueError
  outside the positive numbers, the division of the simple mode raises at rank 0.
\<close>

definition float_max :: real where
  "float_max = (2 - 1 / 2 ^ 52) * 2 ^ 1023"

definition math_log :: "real \<Rightarrow> real" where
  "math_log x = ln x"

definition math_exp :: "real \<Rightarrow> real" where
  "math_exp x = exp x"

declare math_log_def [code del] math_exp_def [code del]

definition calculate_sigmoid_boost :: "pipeline \<Rightarrow> real \<Rightarrow> int \<Rightarrow> py_error + real" where
  "calculate_sigmoid_boost self similarity_score article_rank =
     (if \<not> use_sigmoid_boosting self then
        (if article_rank = 0 then Inl ZeroDivisionError
         else Inr (article_ranking_boost self / of_int article_rank))
      else if similarity_score < 0.5 then Inr 0.0
      else if article_rank \<le> 0 then Inl ValueError
      else
        (let sigmoid_input =
               similarity_weight self * similarity_score
               - rank_weight self * math_log (of_int article_rank)
               + sigmoid_bias self;
             sigmoid_output =
               (if math_exp (- sigmoid_input) > float_max
                then (if sigmoid_input > 0 then 1.0 else 0.0)
                else 1.0 / (1.0 + math_exp (- sigmoid_input)));
             final_boost = sigmoid_output * max_boost_factor self
         in Inr final_boost))"

text \<open>
  \<open>get_boost_explanation\<close> only builds a string, but in sigmoid mode it takes the
  logarithm of the rank whatever the similarity is, and so can raise.
\<close>

definition get_boost_explanation :: "pipeline \<Rightarrow> real \<Rightarrow> int \<Rightarrow> real \<Rightarrow> py_error + unit" where
  "get_boost_explanation self similarity_score article_rank boost_value =
     (if \<not> use_sigmoid_boosting self then Inr ()
      else if article_rank \<le> 0 then Inl ValueError
      else Inr ())"

text \<open>
  The loop over the hits of \<open>search_similar_images_with_ranking_boost\<close>, and the
  function: any exception inside its \<open>try\<close> gives the empty list; the results are
  sorted by final score, highest first.
\<close>

fun boost_hits :: "pipeline \<Rightarrow> (string \<times> int) list \<Rightarrow> hit list \<Rightarrow> py_error + result list" where
  "boost_hits self article_rank_map [] = Inr []"
| "boost_hits self article_rank_map (h # hs) =
     (let image_id = (case hit_image_id h of None \<Rightarrow> ''unknown'' | Some i \<Rightarrow> i);
          base_score = hit_score h;
          article_rank = dict_get article_rank_map image_id 999
      in case calculate_sigmoid_boost self base_score article_rank of
           Inl e \<Rightarrow> Inl e
         | Inr ranking_boost \<Rightarrow>
             (case get_boost_explanation self base_score article_rank ranking_boost of
                Inl e \<Rightarrow> Inl e
              | Inr _ \<Rightarrow>
                  (case boost_hits self article_rank_map hs of
                     Inl e \<Rightarrow> Inl e
                   | Inr results \<Rightarrow>
                       Inr (Boosted image_id (base_score + ranking_boost) base_score
                                    ranking_boost article_rank # results))))"

definition search_similar_images_with_ranking_boost ::
  "pipeline \<Rightarrow> qdrant \<Rightarrow> string \<Rightarrow> real list \<Rightarrow> string list \<Rightarrow> (string \<times> int) list \<Rightarrow> int
   \<Rightarrow> result list" where
  "search_similar_images_with_ranking_boost self client collection_name query_vector
       candidate_image_ids article_rank_map top_k =
     (case search client collection_name query_vector (Some candidate_image_ids) top_k of
        None \<Rightarrow> []
      | Some search_result \<Rightarrow>
          (case boost_hits self article_rank_map search_result of
             Inl e \<Rightarrow> []
           | Inr results \<Rightarrow> sort_key (\<lambda>x. - result_score x) results))"

text \<open>\<open>search_similar_images_no_filter\<close>: the hits with their ranks, from 1.\<close>

fun rank_hits :: "nat \<Rightarrow> hit list \<Rightarrow> result list" where
  "rank_hits rank [] = []"
| "rank_hits rank (h # hs) =
     Direct rank (case hit_image_id h of None \<Rightarrow> ''unknown'' | Some i \<Rightarrow> i) (hit_score h)
     # rank_hits (rank + 1) hs"

definition search_similar_images_no_filter ::
  "qdrant \<Rightarrow> string \<Rightarrow> real list \<Rightarrow> int \<Rightarrow> result list" where
  "search_similar_images_no_filter client collection_name query_vector top_k =
     (case search client collection_name query_vector None top_k of
        None \<Rightarrow> []
      | Some search_result \<Rightarrow> rank_hits 1 search_result)"

subsection \<open>Stage-1 rows and the two query classes\<close>

text \<open>
  \<open>load_and_classify_queries\<close>: a row of the stage-1 CSV is the query id and the cells
  of \<open>article_id_1\<close>, \<open>article_id_2\<close>, ... as long as the columns go on. The loop
  over the cells appends the stripped cell when it is neither empty nor the sentinel,
  and breaks once \<open>max_articles\<close> are collected.
\<close>

fun extract_article_ids :: "int \<Rightarrow> string list \<Rightarrow> string list \<Rightarrow> string list" where
  "extract_article_ids max_articles article_ids [] = article_ids"
| "extract_article_ids max_articles article_ids (c # cs) =
     (let article_id = strip c;
          article_ids' = (if article_id \<noteq> [] \<and> article_id \<noteq> ''#''
                          then article_ids @ [article_id] else article_ids)
      in if int (length article_ids') \<ge> max_articles then article_ids'
         else extract_article_ids max_articles article_ids' cs)"

fun load_and_classify_queries ::
  "int \<Rightarrow> (string \<times> string list) list
   \<Rightarrow> (string \<times> string list) list \<times> string list \<times> string list
   \<Rightarrow> (string \<times> string list) list \<times> string list \<times> string list" where
  "load_and_classify_queries max_articles [] acc = acc"
| "load_and_classify_queries max_articles ((query_id, cells) # rows)
       (query_to_articles, queries_with_articles, queries_without_articles) =
     (let article_ids = extract_article_ids max_articles [] cells
      in load_and_classify_queries max_articles rows
           (dict_set query_id article_ids query_to_articles,
            (if article_ids \<noteq> [] then queries_with_articles @ [query_id]
             else queries_with_articles),
            (if article_ids \<noteq> [] then queries_without_articles
             else queries_without_articles @ [query_id])))"

subsection \<open>Searching the view collections\<close>

text \<open>
  The candidate images of a query: for the articles in rank order, the images of each
  article that the mapping knows; \<open>article_rank_map\<close> keeps, for an image, the rank of
  the last article that lists it.
\<close>

fun candidates_of ::
  "(string \<times> string list) list \<Rightarrow> int \<Rightarrow> string list \<Rightarrow> string list \<times> (string \<times> int) list
   \<Rightarrow> string list \<times> (string \<times> int) list" where
  "candidates_of mapping rank [] acc = acc"
| "candidates_of mapping rank (article_id # article_ids) (candidate_images, article_rank_map) =
     candidates_of mapping (rank + 1) article_ids
       (case map_of mapping article_id of
          None \<Rightarrow> (candidate_images, article_rank_map)
        | Some images \<Rightarrow>
            (candidate_images @ images,
             fold (\<lambda>image_id. dict_set image_id rank) images article_rank_map))"

text \<open>Removing duplicates, the first occurrence staying.\<close>

fun unique_in_order :: "'a list \<Rightarrow> 'a list \<Rightarrow> 'a list" where
  "unique_in_order seen [] = []"
| "unique_in_order seen (x # xs) =
     (if x \<in> set seen then unique_in_order seen xs else x # unique_in_order (x # seen) xs)"

text \<open>
  The active collections of a search for queries with articles: in single-model mode
  the given collections that have an active weight; in multi-model mode, for every
  active family in turn, those of its collections that are among the given ones.
\<close>

definition active_collections_with :: "pipeline \<Rightarrow> string list \<Rightarrow> string list" where
  "active_collections_with self query_collections' =
     (case active_model_weights self of
        Some weights \<Rightarrow> filter (\<lambda>col. col \<in> set (dict_keys weights)) query_collections'
      | None \<Rightarrow>
          (case active_families self of
             Some families \<Rightarrow>
               concat (map (\<lambda>family_config.
                              filter (\<lambda>col. col \<in> set query_collections')
                                     (query_collections family_config))
                           (dict_values families))
           | None \<Rightarrow> query_collections'))"

text \<open>
  The loop over the collections of one query, with the search as a parameter:
  a collection without a usable embedding gets the empty list.
\<close>

fun search_collections ::
  "qdrant \<Rightarrow> string \<Rightarrow> (real list \<Rightarrow> result list) \<Rightarrow> string list
   \<Rightarrow> (string \<times> result list) list \<Rightarrow> (string \<times> result list) list" where
  "search_collections client query_id run [] query_results = query_results"
| "search_collections client query_id run (collection_name # cols) query_results =
     (let query_vector = get_query_embedding client collection_name query_id
      in search_collections client query_id run cols
           (dict_set collection_name
              (if truthy query_vector then run (the query_vector) else [])
              query_results))"

text \<open>
  \<open>search_queries_with_articles\<close>: a query whose articles have no image in the mapping
  is passed over by \<open>continue\<close> and gets no entry in the result.
\<close>

fun search_queries_with_articles ::
  "pipeline \<Rightarrow> qdrant \<Rightarrow> string list \<Rightarrow> (string \<times> string list) list \<Rightarrow> string list \<Rightarrow> string
   \<Rightarrow> int \<Rightarrow> (string \<times> (string \<times> result list) list) list
   \<Rightarrow> py_error + (string \<times> (string \<times> result list) list) list" where
  "search_queries_with_articles self client [] query_to_articles query_collections'
       search_collection' top_k all_results = Inr all_results"
| "search_queries_with_articles self client (query_id # queries) query_to_articles
       query_collections' search_collection' top_k all_results =
     (case map_of query_to_articles query_id of
        None \<Rightarrow> Inl KeyError
      | Some article_ids \<Rightarrow>
          (let (candidate_images, article_rank_map) =
                 candidates_of (article_to_images self) 1 article_ids ([], [])
           in if candidate_images = []
              then search_queries_with_articles self client queries query_to_articles
                     query_collections' search_collection' top_k all_results
              else
                (let unique_candidates = unique_in_order [] candidate_images;
                     active_collections = active_collections_with self query_collections';
                     query_results =
                       search_collections client query_id
                         (\<lambda>query_vector.
                            search_similar_images_with_ranking_boost self client
                              search_collection' query_vector unique_candidates
                              article_rank_map (top_k * 2))
                         active_collections []
                 in search_queries_with_articles self client queries query_to_articles
                      query_collections' search_collection' top_k
                      (dict_set query_id query_results all_results))))"

text \<open>
  \<open>search_queries_without_articles\<close>: the collections that do not start with
  \<open>Query-\<close>, filtered to the active ones; with none left the result is empty.
\<close>

definition optimized_collections :: "pipeline \<Rightarrow> string list \<Rightarrow> string list" where
  "optimized_collections self query_collections' =
     (let optimized = filter (\<lambda>col. \<not> startswith col ''Query-'') query_collections'
      in case active_model_weights self of
           Some weights \<Rightarrow> filter (\<lambda>col. col \<in> set (dict_keys weights)) optimized
         | None \<Rightarrow>
             (case active_families self of
                Some families \<Rightarrow>
                  filter (\<lambda>col. col \<in> set (concat (map query_collections (dict_values families))))
                         optimized
              | None \<Rightarrow> optimized))"

fun search_each_without ::
  "qdrant \<Rightarrow> string list \<Rightarrow> string \<Rightarrow> int \<Rightarrow> string list
   \<Rightarrow> (string \<times> (string \<times> result list) list) list
   \<Rightarrow> (string \<times> (string \<times> result list) list) list" where
  "search_each_without client cols search_collection' direct_search_top_k [] all_results =
     all_results"
| "search_each_without client cols search_collection' direct_search_top_k (query_id # queries)
       all_results =
     search_each_without client cols search_collection' direct_search_top_k queries
       (dict_set query_id
          (search_collections client query_id
             (\<lambda>query_vector.
                search_similar_images_no_filter client search_collection' query_vector
                  direct_search_top_k)
             cols [])
          all_results)"

definition search_queries_without_articles ::
  "pipeline \<Rightarrow> qdrant \<Rightarrow> string list \<Rightarrow> string list \<Rightarrow> string \<Rightarrow> int \<Rightarrow> int
   \<Rightarrow> (string \<times> (string \<times> result list) list) list" where
  "search_queries_without_articles self client queries query_collections' search_collection'
       direct_search_top_k final_top_k =
     (let cols = optimized_collections self query_collections'
      in if cols = [] then []
         else search_each_without client cols search_collection' direct_search_top_k queries [])"

subsection \<open>Fusion of the view collections of one family\<close>

text \<open>
  \<open>_aggregate_final_collections\<close>. The weights it uses: the active weights of
  single-model mode; else, from the active families, the weight that the flat table
  \<open>model_weights\<close> holds for each of their collections; else the whole table.
\<close>

definition aggregation_weights :: "pipeline \<Rightarrow> (string \<times> rat) list" where
  "aggregation_weights self =
     (case active_model_weights self of
        Some weights \<Rightarrow> weights
      | None \<Rightarrow>
          (case active_families self of
             Some families \<Rightarrow>
               fold (\<lambda>col active_weights.
                       case map_of (model_weights self) col of
                         None \<Rightarrow> active_weights
                       | Some w \<Rightarrow> dict_set col w active_weights)
                    (concat (map query_collections (dict_values families))) []
           | None \<Rightarrow> model_weights self))"

text \<open>
  The loop over the results of one collection, \<open>for rank, result in enumerate(results, 1)\<close>:
  a vote of the weight, or the RRF term \<open>weight / (rrf_k + rank)\<close>, whose division
  raises at \<open>rrf_k + rank = 0\<close>.
\<close>

fun vote_results :: "bool \<Rightarrow> int \<Rightarrow> rat \<Rightarrow> nat \<Rightarrow> result list \<Rightarrow> (string \<times> rat) list
                     \<Rightarrow> py_error + (string \<times> rat) list" where
  "vote_results voting k w rank [] image_scores = Inr image_scores"
| "vote_results voting k w rank (r # rs) image_scores =
     (if voting
      then vote_results voting k w (rank + 1) rs (add_score (result_image_id r) w image_scores)
      else if k + int rank = 0 then Inl ZeroDivisionError
      else vote_results voting k w (rank + 1) rs
             (add_score (result_image_id r) (w / of_int (k + int rank)) image_scores))"

text \<open>
  The loop over the collections of one query: a collection whose weight is absent or
  not positive is passed over.
\<close>

fun vote_collections :: "bool \<Rightarrow> int \<Rightarrow> (string \<times> rat) list \<Rightarrow> (string \<times> result list) list
                         \<Rightarrow> (string \<times> rat) list \<Rightarrow> py_error + (string \<times> rat) list" where
  "vote_collections voting k active_weights [] image_scores = Inr image_scores"
| "vote_collections voting k active_weights ((collection_name, results) # collection_results)
       image_scores =
     (let w = dict_get active_weights collection_name 0
      in if w \<le> 0
         then vote_collections voting k active_weights collection_results image_scores
         else (case vote_results voting k w 1 results image_scores of
                 Inl e \<Rightarrow> Inl e
               | Inr image_scores' \<Rightarrow>
                   vote_collections voting k active_weights collection_results image_scores'))"

text \<open>The top 50 images of a query, and the loop over the queries.\<close>

definition aggregate_query :: "bool \<Rightarrow> int \<Rightarrow> (string \<times> rat) list \<Rightarrow> (string \<times> result list) list
                               \<Rightarrow> py_error + string list" where
  "aggregate_query voting k active_weights collection_results =
     (case vote_collections voting k active_weights collection_results [] of
        Inl e \<Rightarrow> Inl e
      | Inr image_scores \<Rightarrow> Inr (map fst (py_take 50 (sorted_desc image_scores))))"

fun aggregate_queries ::
  "bool \<Rightarrow> int \<Rightarrow> (string \<times> rat) list \<Rightarrow> (string \<times> (string \<times> result list) list) list
   \<Rightarrow> (string \<times> string list) list \<Rightarrow> py_error + (string \<times> string list) list" where
  "aggregate_queries voting k active_weights [] final_results = Inr final_results"
| "aggregate_queries voting k active_weights ((query_id, collection_results) # search_results)
       final_results =
     (case aggregate_query voting k active_weights collection_results of
        Inl e \<Rightarrow> Inl e
      | Inr images \<Rightarrow>
          aggregate_queries voting k active_weights search_results
            (dict_set query_id images final_results))"

definition aggregate_final_collections ::
  "pipeline \<Rightarrow> (string \<times> (string \<times> result list) list) list \<Rightarrow> bool
   \<Rightarrow> py_error + (string \<times> string list) list" where
  "aggregate_final_collections self search_results voting =
     aggregate_queries voting (rrf_k self) (aggregation_weights self) search_results []"

subsection \<open>Fusion across the families\<close>

text \<open>
  \<open>multi_model_rrf\<close>. A family's data is its result dictionary and its weight. The
  query ids are collected in a Python set, whose order is not fixed; they are taken here
  in the order of first appearance, and only look-ups in the result depend on it.
\<close>

record family_data =
  results :: "(string \<times> string list) list"
  data_weight :: rat

fun vote_family :: "bool \<Rightarrow> int \<Rightarrow> int \<Rightarrow> rat \<Rightarrow> nat \<Rightarrow> string list \<Rightarrow> (string \<times> rat) list
                    \<Rightarrow> py_error + (string \<times> rat) list" where
  "vote_family voting k final_top_k w rank [] image_scores = Inr image_scores"
| "vote_family voting k final_top_k w rank (image_id # images) image_scores =
     (if int rank \<le> final_top_k
      then (if voting
            then vote_family voting k final_top_k w (rank + 1) images
                   (add_score image_id w image_scores)
            else if k + int rank = 0 then Inl ZeroDivisionError
            else vote_family voting k final_top_k w (rank + 1) images
                   (add_score image_id (w / of_int (k + int rank)) image_scores))
      else vote_family voting k final_top_k w (rank + 1) images image_scores)"

fun vote_families :: "bool \<Rightarrow> int \<Rightarrow> int \<Rightarrow> string \<Rightarrow> (string \<times> family_data) list
                      \<Rightarrow> (string \<times> rat) list \<Rightarrow> py_error + (string \<times> rat) list" where
  "vote_families voting k final_top_k query_id [] image_scores = Inr image_scores"
| "vote_families voting k final_top_k query_id ((family_name, data) # family_results)
       image_scores =
     (case vote_family voting k final_top_k (data_weight data) 1
             (dict_get (results data) query_id []) image_scores of
        Inl e \<Rightarrow> Inl e
      | Inr image_scores' \<Rightarrow>
          vote_families voting k final_top_k query_id family_results image_scores')"

definition multi_model_query :: "bool \<Rightarrow> int \<Rightarrow> int \<Rightarrow> (string \<times> family_data) list \<Rightarrow> string
                                 \<Rightarrow> py_error + string list" where
  "multi_model_query voting k final_top_k family_results query_id =
     (case vote_families voting k final_top_k query_id family_results [] of
        Inl e \<Rightarrow> Inl e
      | Inr image_scores \<Rightarrow> Inr (map fst (py_take final_top_k (sorted_desc image_scores))))"

definition family_query_ids :: "(string \<times> family_data) list \<Rightarrow> string list" where
  "family_query_ids family_results =
     unique_in_order [] (concat (map (\<lambda>data. dict_keys (results data)) (dict_values family_results)))"

fun multi_model_queries ::
  "bool \<Rightarrow> int \<Rightarrow> int \<Rightarrow> (string \<times> family_data) list \<Rightarrow> string list
   \<Rightarrow> (string \<times> string list) list \<Rightarrow> py_error + (string \<times> string list) list" where
  "multi_model_queries voting k final_top_k family_results [] final_results = Inr final_results"
| "multi_model_queries voting k final_top_k family_results (query_id # query_ids) final_results =
     (case multi_model_query voting k final_top_k family_results query_id of
        Inl e \<Rightarrow> Inl e
      | Inr images \<Rightarrow>
          multi_model_queries voting k final_top_k family_results query_ids
            (dict_set query_id images final_results))"

definition multi_model_rrf ::
  "pipeline \<Rightarrow> (string \<times> family_data) list \<Rightarrow> int \<Rightarrow> bool
   \<Rightarrow> py_error + (string \<times> string list) list" where
  "multi_model_rrf self family_results final_top_k voting =
     multi_model_queries voting (multi_model_rrf_k self) final_top_k family_results
       (family_query_ids family_results) []"

subsection \<open>The image search pipelines and the final CSV\<close>

text \<open>
  The searches of one family (or of single-model mode): the queries with articles, then
  those without, each only when there are any, merged by \<open>update\<close>, and fused.
\<close>

definition family_search ::
  "pipeline \<Rightarrow> qdrant \<Rightarrow> (string \<times> string list) list \<Rightarrow> string list \<Rightarrow> string list
   \<Rightarrow> string list \<Rightarrow> string \<Rightarrow> int \<Rightarrow> int
   \<Rightarrow> py_error + (string \<times> string list) list" where
  "family_search self client query_to_articles queries_with_articles queries_without_articles
       query_collections' search_collection' direct_search_top_k final_top_k =
     (case (if queries_with_articles \<noteq> []
            then search_queries_with_articles self client queries_with_articles
                   query_to_articles query_collections' search_collection' final_top_k []
            else Inr []) of
        Inl e \<Rightarrow> Inl e
      | Inr results_with_articles \<Rightarrow>
          (let results_without_articles =
                 (if queries_without_articles \<noteq> []
                  then search_queries_without_articles self client queries_without_articles
                         query_collections' search_collection' direct_search_top_k final_top_k
                  else []);
               all_search_results =
                 dict_update (dict_update [] results_with_articles) results_without_articles
           in aggregate_final_collections self all_search_results (use_voting self)))"

text \<open>
  \<open>image_search_pipeline\<close> with its default collections: the view names get the
  prefix \<open>Private_\<close> or \<open>Public_\<close>.
\<close>

definition get_query_collection_name :: "pipeline \<Rightarrow> string \<Rightarrow> string" where
  "get_query_collection_name self base_name =
     (if private_test_mode self then ''Private_'' @ base_name else ''Public_'' @ base_name)"

definition image_search_pipeline ::
  "pipeline \<Rightarrow> qdrant \<Rightarrow> (string \<times> string list) list \<Rightarrow> int \<Rightarrow> int \<Rightarrow> int
   \<Rightarrow> py_error + (string \<times> string list) list" where
  "image_search_pipeline self client text_search_csv max_articles_per_query
       direct_search_top_k final_top_k =
     (let default_collections =
            [get_query_collection_name self (''Query_'' @ primary_checkpoint self @ ''_Large''),
             get_query_collection_name self (''Summary_'' @ primary_checkpoint self @ ''_Large''),
             get_query_collection_name self (''Concise_'' @ primary_checkpoint self @ ''_Large'')]
      in case map_of database_mapping (primary_checkpoint self) of
           None \<Rightarrow> Inl KeyError
         | Some database_name \<Rightarrow>
             (let search_collection' = ''Database_'' @ database_name @ ''_Large'';
                  query_collections' =
                    (case active_model_weights self of
                       Some weights \<Rightarrow>
                         filter (\<lambda>col. col \<in> set (dict_keys weights)) default_collections
                     | None \<Rightarrow> default_collections)
              in if query_collections' = [] then Inr []
                 else (case load_and_classify_queries max_articles_per_query text_search_csv
                              ([], [], []) of
                         (query_to_articles, queries_with_articles, queries_without_articles) \<Rightarrow>
                           family_search self client query_to_articles queries_with_articles
                             queries_without_articles query_collections' search_collection'
                             direct_search_top_k final_top_k)))"

text \<open>\<open>multi_model_image_search_pipeline\<close>: the loop over the active families.\<close>

fun search_families ::
  "pipeline \<Rightarrow> qdrant \<Rightarrow> (string \<times> string list) list \<Rightarrow> string list \<Rightarrow> string list
   \<Rightarrow> int \<Rightarrow> int \<Rightarrow> (string \<times> family) list \<Rightarrow> (string \<times> family_data) list
   \<Rightarrow> py_error + (string \<times> family_data) list" where
  "search_families self client query_to_articles queries_with_articles queries_without_articles
       direct_search_top_k final_top_k [] family_results = Inr family_results"
| "search_families self client query_to_articles queries_with_articles queries_without_articles
       direct_search_top_k final_top_k ((family_name, family_config) # families) family_results =
     (case family_search self client query_to_articles queries_with_articles
             queries_without_articles (query_collections family_config)
             (search_collection family_config) direct_search_top_k final_top_k of
        Inl e \<Rightarrow> Inl e
      | Inr family_final_results \<Rightarrow>
          search_families self client query_to_articles queries_with_articles
            queries_without_articles direct_search_top_k final_top_k families
            (dict_set family_name
               \<lparr>results = family_final_results, data_weight = family_weight family_config\<rparr>
               family_results))"

definition multi_model_image_search_pipeline ::
  "pipeline \<Rightarrow> qdrant \<Rightarrow> (string \<times> string list) list \<Rightarrow> int \<Rightarrow> int \<Rightarrow> int
   \<Rightarrow> py_error + (string \<times> string list) list" where
  "multi_model_image_search_pipeline self client text_search_csv max_articles_per_query
       direct_search_top_k final_top_k =
     (if \<not> enable_multi_model self then Inl ValueError
      else (case active_families self of
              None \<Rightarrow> Inl AttributeError
            | Some families \<Rightarrow>
                (case load_and_classify_queries max_articles_per_query text_search_csv
                        ([], [], []) of
                   (query_to_articles, queries_with_articles, queries_without_articles) \<Rightarrow>
                     (case search_families self client query_to_articles queries_with_articles
                             queries_without_articles direct_search_top_k final_top_k
                             families [] of
                        Inl e \<Rightarrow> Inl e
                      | Inr family_results \<Rightarrow>
                          multi_model_rrf self family_results final_top_k (use_voting self)))))"

text \<open>
  \<open>save_final_image_results\<close>: the rows written to the CSV, the header first; the
  data rows in the order of the sorted query ids.
\<close>

definition final_header :: "string list" where
  "final_header = ''query_id'' # map (\<lambda>i. ''image_id_'' @ str_nat i) [1 ..< 11]"

definition final_row :: "(string \<times> string list) list \<Rightarrow> string \<Rightarrow> string list" where
  "final_row final_results query_id =
     (let images = dict_get final_results query_id []
      in query_id # map (\<lambda>i. if i < length images then images ! i else ''#'') [0 ..< 50])"

definition save_final_image_results :: "(string \<times> string list) list \<Rightarrow> string list list" where
  "save_final_image_results final_results =
     final_header # map (final_row final_results) (sort (dict_keys final_results))"

text \<open>
  The image stage as \<open>run_integrated_cascade_pipeline\<close> runs it on the stage-1 rows:
  the multi-model or the single-model search, with 15 articles per query, 20 direct hits
  and a final width of 15, then the CSV.
\<close>

definition image_search ::
  "pipeline \<Rightarrow> qdrant \<Rightarrow> (string \<times> string list) list
   \<Rightarrow> py_error + (string \<times> string list) list" where
  "image_search self client submission_csv =
     (if enable_multi_model self
      then multi_model_image_search_pipeline self client submission_csv 15 20 15
      else image_search_pipeline self client submission_csv 15 20 15)"

definition image_stage ::
  "pipeline \<Rightarrow> qdrant \<Rightarrow> (string \<times> string list) list \<Rightarrow> py_error + string list list" where
  "image_stage self client submission_csv =
     (case image_search self client submission_csv of
        Inl e \<Rightarrow> Inl e
      | Inr final_results \<Rightarrow> Inr (save_final_image_results final_results))"

section \<open>The entity-weighted article search (entity\_search\_system.py)\<close>

text \<open>
  A value of a field of an entity dictionary: \<open>None\<close>, a string, a number, or an
  unhashable value (a list or a dictionary). A field of the record is \<open>None\<close> when the
  dictionary has no such key.
\<close>

datatype py_value = PyNone | PyStr string | PyNum rat | PyUnhashable

record entity =
  entity_text :: "py_value option"
  entity_label :: "py_value option"

text \<open>\<open>str.lower()\<close> on code points below 256.\<close>

definition py_lower_char :: "char \<Rightarrow> char" where
  "py_lower_char c =
     (let n = (of_char c :: nat)
      in if (65 \<le> n \<and> n \<le> 90) \<or> (192 \<le> n \<and> n \<le> 222 \<and> n \<noteq> 215)
         then char_of (n + 32) else c)"

definition py_lower :: "string \<Rightarrow> string" where
  "py_lower s = map py_lower_char s"

text \<open>
  The clauses of the \<open>should\<close> list: the weighted clause of an entity text (exact
  match with boost 5.0, fuzzy match with boost 2.0, prefix match on the lower-cased text
  with boost 1.5, the best of them scaled by the weight), and the same-label bonus clause
  scaled by \<open>weight * 1.3\<close>.
\<close>

datatype clause =
    WeightedQuery (clause_text: string) (clause_prefix: string) (clause_boost: rat)
  | SameLabelQuery (clause_text: string) (clause_label: py_value) (clause_boost: rat)

record entity_search =
  articles_index :: string
  entity_weights :: "(py_value \<times> rat) list"

definition default_entity_weights :: "(py_value \<times> rat) list" where
  "default_entity_weights =
     [(PyStr ''PERSON'', 4.3), (PyStr ''CARDINAL'', 3.5), (PyStr ''ORG'', 3.8),
      (PyStr ''GPE'', 3.1), (PyStr ''EVENT'', 2.9), (PyStr ''FAC'', 2.5),
      (PyStr ''NORP'', 2.2), (PyStr ''TIME'', 2.1), (PyStr ''DATE'', 2.0),
      (PyStr ''PRODUCT'', 2.0), (PyStr ''LAW'', 1.8), (PyStr ''LOC'', 1.8),
      (PyStr ''WORK_OF_ART'', 1.5), (PyStr ''MONEY'', 1.5), (PyStr ''PERCENT'', 1.5),
      (PyStr ''QUANTITY'', 1.3), (PyStr ''LANGUAGE'', 1.2), (PyStr ''ORDINAL'', 1.2),
      (PyStr ''MISC'', 1.0), (PyStr ''DEFAULT'', 1.0)]"

text \<open>
  \<open>entity.get("text", "").strip()\<close> raises on a value that is not a string;
  \<open>entity_weights.get(entity_label, entity_weights["DEFAULT"])\<close> raises on an
  unhashable label and on a table without \<open>DEFAULT\<close>; \<open>if entity_label:\<close> is the
  truth value of the label.
\<close>

definition stripped_text :: "entity \<Rightarrow> py_error + string" where
  "stripped_text e =
     (case entity_text e of
        None \<Rightarrow> Inr (strip '''')
      | Some (PyStr s) \<Rightarrow> Inr (strip s)
      | Some _ \<Rightarrow> Inl AttributeError)"

definition label_of :: "entity \<Rightarrow> py_value" where
  "label_of e = (case entity_label e of None \<Rightarrow> PyStr '''' | Some v \<Rightarrow> v)"

definition entity_weight :: "entity_search \<Rightarrow> py_value \<Rightarrow> py_error + rat" where
  "entity_weight self l =
     (case map_of (entity_weights self) (PyStr ''DEFAULT'') of
        None \<Rightarrow> Inl KeyError
      | Some d \<Rightarrow>
          (if l = PyUnhashable then Inl TypeError
           else Inr (dict_get (entity_weights self) l d)))"

fun label_truthy :: "py_value \<Rightarrow> bool" where
  "label_truthy PyNone = False"
| "label_truthy (PyStr s) = (s \<noteq> [])"
| "label_truthy (PyNum x) = (x \<noteq> 0)"
| "label_truthy PyUnhashable = True"

text \<open>The loop over the entities that builds \<open>should_queries\<close>.\<close>

fun build_should_queries :: "entity_search \<Rightarrow> entity list \<Rightarrow> clause list \<Rightarrow> py_error + clause list" where
  "build_should_queries self [] should_queries = Inr should_queries"
| "build_should_queries self (e # es) should_queries =
     (case stripped_text e of
        Inl err \<Rightarrow> Inl err
      | Inr text \<Rightarrow>
          (if text = [] then build_should_queries self es should_queries
           else (case entity_weight self (label_of e) of
                   Inl err \<Rightarrow> Inl err
                 | Inr w \<Rightarrow>
                     build_should_queries self es
                       (should_queries @ [WeightedQuery text (py_lower text) w]
                        @ (if label_truthy (label_of e)
                           then [SameLabelQuery text (label_of e) (w * 1.3)] else [])))))"

text \<open>
  The index is a collaborator: what it answers to a search request is a parameter. The
  request raises (no connection, a time-out), or a response comes back with a status
  code and a body. The body is not JSON, or has no \<open>hits.hits\<close>, or has hits; a hit
  may lack \<open>_source\<close>, \<open>_score\<close> or the \<open>article_id\<close> of its source.
\<close>

record es_hit =
  hit_source_article_id :: "string option option"
  hit_es_score :: "rat option"

datatype es_body = NotJson | NoHits | Hits "es_hit list"

datatype es_outcome = RequestException | Response int es_body

record article_result =
  ar_rank :: nat
  ar_article_id :: string
  ar_score :: rat

fun article_results :: "nat \<Rightarrow> es_hit list \<Rightarrow> py_error + article_result list" where
  "article_results i [] = Inr []"
| "article_results i (h # hs) =
     (case hit_source_article_id h of
        None \<Rightarrow> Inl KeyError
      | Some None \<Rightarrow> Inl KeyError
      | Some (Some article_id) \<Rightarrow>
          (case hit_es_score h of
             None \<Rightarrow> Inl KeyError
           | Some s \<Rightarrow>
               (case article_results (i + 1) hs of
                  Inl e \<Rightarrow> Inl e
                | Inr rs \<Rightarrow> Inr (\<lparr>ar_rank = i, ar_article_id = article_id, ar_score = s\<rparr> # rs))))"

text \<open>
  \<open>search_articles_for_query\<close>: \<open>Inl\<close> is an exception that reaches the caller. What
  happens inside the \<open>try\<close> ends in the empty list.
\<close>

definition search_articles_for_query ::
  "entity_search \<Rightarrow> (string \<Rightarrow> clause list \<Rightarrow> int \<Rightarrow> es_outcome) \<Rightarrow> entity list \<Rightarrow> int
   \<Rightarrow> py_error + article_result list" where
  "search_articles_for_query self post query_entities top_k =
     (if query_entities = [] then Inr []
      else (case build_should_queries self query_entities [] of
              Inl e \<Rightarrow> Inl e
            | Inr should_queries \<Rightarrow>
                (if should_queries = [] then Inr []
                 else (case post (articles_index self) should_queries top_k of
                         RequestException \<Rightarrow> Inr []
                       | Response status_code body \<Rightarrow>
                           (if status_code = 200
                            then (case body of
                                    NotJson \<Rightarrow> Inr []
                                  | NoHits \<Rightarrow> Inr []
                                  | Hits hits \<Rightarrow>
                                      (case article_results 1 hits of
                                         Inl e \<Rightarrow> Inr []
                                       | Inr search_results \<Rightarrow> Inr search_results))
                            else Inr [])))))"

subsection \<open>Construction of the pipeline object\<close>

text \<open>
  The parameters of \<open>__init__\<close> that configure the image search, with the loaded JSON
  configuration (if a file is given) and the loaded article mapping in place of the file
  names, and their default values in the source.
\<close>

record pipeline_args =
  arg_json_config :: "(string \<times> db_config) list option"
  arg_private_test_mode :: bool
  arg_primary_checkpoint :: string
  arg_enable_h14_laion :: bool
  arg_enable_multi_model :: bool
  arg_weights :: legacy_weights
  arg_article_to_images :: "(string \<times> string list) list"
  arg_article_ranking_boost :: real
  arg_rrf_k :: int
  arg_multi_model_rrf_k :: int
  arg_use_voting :: bool
  arg_use_sigmoid_boosting :: bool
  arg_similarity_weight :: real
  arg_rank_weight :: real
  arg_sigmoid_bias :: real
  arg_max_boost_factor :: real

definition default_weights :: legacy_weights where
  "default_weights =
     \<lparr>primary_query_large_weight = 1.0, primary_summary_large_weight = 1.0,
      primary_concise_large_weight = 1.2,
      primary_query_base_weight = 0.9, primary_summary_base_weight = 0.9,
      primary_concise_base_weight = 1.1,
      h14_query_weight = 0.8, h14_summary_weight = 0.8, h14_concise_weight = 1.0,
      primary_large_family_weight = 1.0, primary_base_family_weight = 0.9,
      h14_laion_family_weight = 0.8\<rparr>"

definition default_args :: pipeline_args where
  "default_args =
     \<lparr>arg_json_config = None, arg_private_test_mode = False,
      arg_primary_checkpoint = ''Initialized'', arg_enable_h14_laion = True,
      arg_enable_multi_model = True, arg_weights = default_weights,
      arg_article_to_images = [],
      arg_article_ranking_boost = 0.3, arg_rrf_k = 60, arg_multi_model_rrf_k = 50,
      arg_use_voting = False, arg_use_sigmoid_boosting = True,
      arg_similarity_weight = 10.0, arg_rank_weight = 2.5, arg_sigmoid_bias = 0.0,
      arg_max_boost_factor = 0.5\<rparr>"

text \<open>
  \<open>__init__\<close>: the checkpoint is validated; a JSON configuration that is given and not
  empty builds the families and the weights and switches the attribute
  \<open>enable_multi_model\<close> on, otherwise the legacy parameters build them; then the
  filter by weight runs on the parameter \<open>enable_multi_model\<close>.
\<close>

definition init_pipeline :: "pipeline_args \<Rightarrow> py_error + pipeline" where
  "init_pipeline args =
     (if arg_primary_checkpoint args \<notin> set [''Initialized'', ''Flickr30k'', ''OpenEvents_v1'']
      then Inl ValueError
      else
        (let config_data = (case arg_json_config args of None \<Rightarrow> [] | Some c \<Rightarrow> c);
             blank =
               \<lparr>private_test_mode = arg_private_test_mode args,
                primary_checkpoint = arg_primary_checkpoint args,
                enable_multi_model =
                  (if arg_json_config args \<noteq> None \<and> config_data \<noteq> [] then True
                   else arg_enable_multi_model args),
                model_weights = [], model_families = None,
                active_model_weights = None, active_families = None,
                article_to_images = arg_article_to_images args,
                article_ranking_boost = arg_article_ranking_boost args,
                rrf_k = arg_rrf_k args, multi_model_rrf_k = arg_multi_model_rrf_k args,
                use_voting = arg_use_voting args,
                use_sigmoid_boosting = arg_use_sigmoid_boosting args,
                similarity_weight = arg_similarity_weight args,
                rank_weight = arg_rank_weight args, sigmoid_bias = arg_sigmoid_bias args,
                max_boost_factor = arg_max_boost_factor args\<rparr>
         in if config_data \<noteq> []
            then (case build_config_from_json (arg_private_test_mode args) config_data [] [] of
                    (families, weights) \<Rightarrow>
                      filter_active (arg_enable_multi_model args)
                        (blank\<lparr>model_families := Some families, model_weights := weights\<rparr>))
            else (case legacy_model_families (arg_primary_checkpoint args)
                         (arg_enable_h14_laion args) (arg_enable_multi_model args)
                         (arg_private_test_mode args) (arg_weights args) of
                    Inl e \<Rightarrow> Inl e
                  | Inr families \<Rightarrow>
                      filter_active (arg_enable_multi_model args)
                        (blank\<lparr>model_families := families,
                               model_weights :=
                                 legacy_model_weights (arg_primary_checkpoint args)
                                   (arg_enable_h14_laion args) (arg_enable_multi_model args)
                                   (arg_private_test_mode args) (arg_weights args)\<rparr>))))"

text \<open>
  What \<open>main\<close> does for the image stage: it constructs the pipeline object from the
  arguments and runs the image search on the stage-1 rows, then writes the CSV.
\<close>

definition run_image_search ::
  "pipeline_args \<Rightarrow> qdrant \<Rightarrow> (string \<times> string list) list
   \<Rightarrow> py_error + (string \<times> string list) list" where
  "run_image_search args client submission_csv =
     (case init_pipeline args of
        Inl e \<Rightarrow> Inl e
      | Inr self \<Rightarrow> image_search self client submission_csv)"

definition run_image_stage ::
  "pipeline_args \<Rightarrow> qdrant \<Rightarrow> (string \<times> string list) list \<Rightarrow> py_error + string list list" where
  "run_image_stage args client submission_csv =
     (case init_pipeline args of
        Inl e \<Rightarrow> Inl e
      | Inr self \<Rightarrow> image_stage self client submission_csv)"

subsection \<open>What the family aggregator is meant to compute\<close>

text \<open>
  The top \<open>n\<close> of a set of items by a score, without padding, and the addition of an
  \<open>(item, term)\<close> pair to the scores.
\<close>

definition top_images :: "nat \<Rightarrow> (string \<Rightarrow> rat) \<Rightarrow> string set \<Rightarrow> string list \<Rightarrow> bool" where
  "top_images n score items out \<longleftrightarrow>
     (\<exists>ranked. distinct ranked \<and> set ranked = items
        \<and> sorted_wrt (\<lambda>a b. score b \<le> score a) ranked
        \<and> out = take n ranked)"

definition add_term :: "string \<times> rat \<Rightarrow> (string \<times> rat) list \<Rightarrow> (string \<times> rat) list" where
  "add_term t d = add_score (fst t) (snd t) d"

text \<open>
  The ranked list of a family for a query is the one its results hold under the query
  id, and is empty when they hold none; the queries of the families are those for which
  some family holds a list.
\<close>

definition family_list :: "family_data \<Rightarrow> string \<Rightarrow> string list" where
  "family_list data query_id =
     (case map_of (results data) query_id of None \<Rightarrow> [] | Some images \<Rightarrow> images)"

definition family_queries :: "(string \<times> family_data) list \<Rightarrow> string set" where
  "family_queries family_results = (\<Union>data\<in>snd ` set family_results. fst ` set (results data))"

text \<open>
  The terms a family contributes for a query: for the first \<open>final_top_k\<close> entries of its
  ranked list, at ranks \<open>1, 2, ...\<close>, the family weight in voting mode and
  \<open>weight / (k + rank)\<close> in RRF mode. The fused score of an image is the sum of its
  terms over the families.
\<close>

definition family_term :: "bool \<Rightarrow> int \<Rightarrow> rat \<Rightarrow> nat \<Rightarrow> rat" where
  "family_term voting k w rank = (if voting then w else w / of_int (k + int rank))"

definition family_terms :: "bool \<Rightarrow> int \<Rightarrow> int \<Rightarrow> string \<Rightarrow> family_data \<Rightarrow> (string \<times> rat) list" where
  "family_terms voting k final_top_k query_id data =
     map (\<lambda>(rank, image_id). (image_id, family_term voting k (data_weight data) rank))
         (List.enumerate 1 (take (nat final_top_k) (family_list data query_id)))"

definition family_score ::
  "bool \<Rightarrow> int \<Rightarrow> int \<Rightarrow> (string \<times> family_data) list \<Rightarrow> string \<Rightarrow> string \<Rightarrow> rat" where
  "family_score voting k final_top_k family_results query_id image_id =
     (\<Sum>data\<leftarrow>map snd family_results.
        \<Sum>(i, s)\<leftarrow>family_terms voting k final_top_k query_id data. if i = image_id then s else 0)"

definition family_images ::
  "bool \<Rightarrow> int \<Rightarrow> int \<Rightarrow> (string \<times> family_data) list \<Rightarrow> string \<Rightarrow> string set" where
  "family_images voting k final_top_k family_results query_id =
     (\<Union>data\<in>snd ` set family_results.
        fst ` set (family_terms voting k final_top_k query_id data))"

text \<open>The same terms by recursion on the list, from a given rank.\<close>

fun terms_from :: "bool \<Rightarrow> int \<Rightarrow> rat \<Rightarrow> nat \<Rightarrow> string list \<Rightarrow> (string \<times> rat) list" where
  "terms_from voting k w rank [] = []"
| "terms_from voting k w rank (image_id # images) =
     (image_id, family_term voting k w rank) # terms_from voting k w (Suc rank) images"

text \<open>In RRF mode one of the ranks \<open>rank, ..., rank + n - 1\<close> has \<open>k + rank = 0\<close>.\<close>

definition zero_rank :: "bool \<Rightarrow> int \<Rightarrow> nat \<Rightarrow> nat \<Rightarrow> bool" where
  "zero_rank voting k rank n = (\<not> voting \<and> list_ex (\<lambda>r. k + int r = 0) [rank ..< rank + n])"

definition family_zero_rank :: "bool \<Rightarrow> int \<Rightarrow> int \<Rightarrow> string \<Rightarrow> family_data \<Rightarrow> bool" where
  "family_zero_rank voting k final_top_k query_id data =
     zero_rank voting k 1 (length (take (nat final_top_k) (family_list data query_id)))"

subsection \<open>Leaving a collection or a family out\<close>



subsection \<open>Example collaborators and configurations\<close>

text \<open>
  A vector store in which only the raw-query view of the default large family holds an
  embedding (for query \<open>q1\<close>), and whose image collection of that family answers every
  search with the one image \<open>img1\<close>; every other search finds nothing.
\<close>

definition query_view_scroll :: "string \<Rightarrow> string \<Rightarrow> scroll_outcome" where
  "query_view_scroll collection_name query_id =
     (if collection_name = ''Query_Initialized_Large'' \<and> query_id = ''q1''
      then Point (Some [1]) else NoPoint)"

definition query_view_search ::
  "string \<Rightarrow> real list \<Rightarrow> string list option \<Rightarrow> int \<Rightarrow> hit list option" where
  "query_view_search collection_name query_vector query_filter limit =
     (if collection_name = ''Database_Initialized_Large''
      then Some [\<lparr>hit_image_id = Some ''img1'', hit_score = 0.9\<rparr>] else Some [])"

definition query_view_store :: qdrant where
  "query_view_store = \<lparr>scroll = query_view_scroll, search = query_view_search\<rparr>"






text \<open>
  The families and the pipeline object that the second configuration gives, before the
  filter by weight: the flat table holds weight 0 for \<open>V\<close>, written by the second
  database.
\<close>

definition two_database_families :: "(string \<times> family) list" where
  "two_database_families =
     [(''A'', \<lparr>query_collections = [''V'', ''W''], search_collection = ''Database_A'',
              family_weight = 1\<rparr>),
      (''B'', \<lparr>query_collections = [''V''], search_collection = ''Database_B'',
              family_weight = 0\<rparr>)]"

definition two_database_pipeline :: pipeline where
  "two_database_pipeline =
     \<lparr>private_test_mode = False, primary_checkpoint = ''Initialized'',
      enable_multi_model = True, model_weights = [(''V'', 0), (''W'', 1)],
      model_families = Some two_database_families,
      active_model_weights = None, active_families = None, article_to_images = [],
      article_ranking_boost = 0.3, rrf_k = 60, multi_model_rrf_k = 50, use_voting = False,
      use_sigmoid_boosting = True, similarity_weight = 10, rank_weight = 2.5,
      sigmoid_bias = 0, max_boost_factor = 0.5\<rparr>"


definition two_family_results :: "(string \<times> family_data) list" where
  "two_family_results =
     [(''F1'', \<lparr>results = [(''q1'', [''a'', ''b'', ''c''])], data_weight = 1\<rparr>),
      (''F2'', \<lparr>results = [(''q1'', [''b'', ''d'']), (''q2'', [''e''])], data_weight = 0.8\<rparr>)]"

section \<open>Properties of the standalone RRF reranker\<close>

subsection \<open>The look-ups of the source\<close>

text \<open>
  The row selection \<open>df[df['query_id'] == query_id]\<close> with \<open>.empty\<close> and \<open>.iloc[0]\<close>
  finds the cells of the first row with the query id, and nothing when no row has it; the
  sorted set of the query ids holds the queries of all files, each once; the output size
  is the output width.
\<close>

lemma holds_query_iff: "holds_query df q \<longleftrightarrow> map_of (df_rows df) q \<noteq> None"
  by (force simp: holds_query_def map_of_eq_None_iff)

lemma query_row_conv:
  "query_row df q = (if holds_query df q then Some (cells_of df q) else None)"
proof -
  have "(case filter (\<lambda>r. fst r = q) rows of [] \<Rightarrow> None | r # _ \<Rightarrow> Some (snd r)) = map_of rows q"
    for rows :: "(string \<times> cell list) list"
    by (induction rows) auto
  then have "query_row df q = map_of (df_rows df) q"
    by (simp add: query_row_def)
  then show ?thesis
    by (auto simp: holds_query_iff cells_of_def)
qed

lemma cells_of_first_row:
  "df_rows df = before @ (q, cells) # after \<Longrightarrow> q \<notin> fst ` set before \<Longrightarrow> cells_of df q = cells"
  by (simp add: cells_of_def map_of_append map_add_def map_of_eq_None_iff [THEN iffD2]
           split: option.splits)

lemma cells_of_missing: "\<not> holds_query df q \<Longrightarrow> cells_of df q = []"
  by (simp add: holds_query_iff cells_of_def)

lemma file_entries_row:
  "file_entries df q = (case query_row df q of None \<Rightarrow> [] | Some cells \<Rightarrow> valid_entries cells)"
  by (simp add: query_row_conv file_entries_def cells_of_missing valid_entries_def)

lemma lacks_query_row:
  "lacks_query df q = (case query_row df q of None \<Rightarrow> True | Some cells \<Rightarrow> list_all is_missing cells)"
  by (simp add: query_row_conv lacks_query_def)

lemma set_all_query_ids: "set (all_query_ids dfs) = input_queries dfs"
  by (auto simp: all_query_ids_def input_queries_def)

lemma output_size_width:
  "dfs \<noteq> [] \<Longrightarrow> output_size dfs top_n = Inr n \<Longrightarrow> nat n = output_width dfs top_n"
  by (auto simp: output_size_def output_width_def split: option.splits)

subsection \<open>The loops as folds over the valid entries\<close>

lemma add_entry_pair [simp]: "add_entry k (n, a) d = add_score a (rrf_term k n) d"
  by (simp add: add_entry_def)

lemma rrf_score_nat:
  "n \<noteq> 0 \<Longrightarrow> rrf_score (int n) k = (if k + int n = 0 then Inl ZeroDivisionError else Inr (rrf_term k n))"
  by (simp add: rrf_score_def rrf_term_def)

lemma entries_from_conv:
  "entries_from n cells =
     concat (map (\<lambda>r. case cells ! (r - n) of
                          None \<Rightarrow> []
                        | Some a \<Rightarrow> if is_missing (Some a) then [] else [(r, a)])
                 [n ..< n + length cells])"
proof (induction cells arbitrary: n)
  case Nil
  then show ?case by simp
next
  case (Cons c cs)
  let ?F = "\<lambda>r. case (c # cs) ! (r - n) of
                          None \<Rightarrow> []
                        | Some a \<Rightarrow> if is_missing (Some a) then [] else [(r, a)]"
  let ?G = "\<lambda>r. case cs ! (r - Suc n) of
                          None \<Rightarrow> []
                        | Some a \<Rightarrow> if is_missing (Some a) then [] else [(r, a)]"
  have shift: "map ?F [Suc n ..< Suc n + length cs] = map ?G [Suc n ..< Suc n + length cs]"
  proof (rule map_cong [OF refl])
    fix r assume "r \<in> set [Suc n ..< Suc n + length cs]"
    then have "r - n = Suc (r - Suc n)" by auto
    then show "?F r = ?G r" by simp
  qed
  have "[n ..< n + Suc (length cs)] = n # [Suc n ..< n + Suc (length cs)]"
    by (rule upt_conv_Cons) simp
  then have split: "[n ..< n + length (c # cs)] = n # [Suc n ..< Suc n + length cs]"
    by simp
  have "concat (map ?F [n ..< n + length (c # cs)])
          = ?F n @ concat (map ?F [Suc n ..< Suc n + length cs])"
    by (simp only: split list.map concat.simps)
  also have "\<dots> = ?F n @ concat (map ?G [Suc n ..< Suc n + length cs])"
    by (simp only: shift)
  also have "\<dots> = ?F n @ entries_from (Suc n) cs"
    by (simp only: Cons.IH [of "Suc n"])
  also have "?F n = (case c of None \<Rightarrow> [] | Some a \<Rightarrow> if is_missing (Some a) then [] else [(n, a)])"
    by simp
  finally show ?case by simp
qed

lemma valid_entries_conv: "valid_entries cells = entries_from 1 cells"
  by (simp add: valid_entries_def entries_from_conv)

lemma collect_row_from:
  "n \<noteq> 0 \<Longrightarrow>
   collect_row k (int n) cells d =
     (if zero_denominator k (entries_from n cells) then Inl ZeroDivisionError
      else Inr (fold (add_entry k) (entries_from n cells) d))"
proof (induction cells arbitrary: n d)
  case Nil
  then show ?case by (simp add: zero_denominator_def)
next
  case (Cons c cs)
  have step: "int n + 1 = int (Suc n)" by simp
  show ?case
  proof (cases "is_missing c")
    case True
    then show ?thesis
      using Cons.IH [of "Suc n" d] Cons.prems
      by (cases c) (simp_all add: step zero_denominator_def del: of_nat_Suc)
  next
    case False
    then obtain a where c: "c = Some a" by (cases c) auto
    show ?thesis
      using False c Cons.IH [of "Suc n"] Cons.prems
      by (simp add: step rrf_score_nat zero_denominator_def del: of_nat_Suc)
  qed
qed

lemma collect_row_adaptive_from:
  "n \<noteq> 0 \<Longrightarrow>
   collect_row_adaptive k limit (int n) used cells d =
     (if zero_denominator k (take (limit - used) (entries_from n cells)) then Inl ZeroDivisionError
      else Inr (fold (add_entry k) (take (limit - used) (entries_from n cells)) d))"
proof (induction cells arbitrary: n d used)
  case Nil
  then show ?case by (simp add: zero_denominator_def)
next
  case (Cons c cs)
  have step: "int n + 1 = int (Suc n)" by simp
  show ?case
  proof (cases "used \<ge> limit")
    case True
    then show ?thesis by (simp add: zero_denominator_def)
  next
    case running: False
    show ?thesis
    proof (cases "is_missing c")
      case True
      then show ?thesis
        using running Cons.IH [of "Suc n" used d] Cons.prems
        by (cases c) (simp_all add: step zero_denominator_def del: of_nat_Suc)
    next
      case False
      then obtain a where c: "c = Some a" by (cases c) auto
      from running have lim: "limit - used = Suc (limit - (used + 1))" by simp
      show ?thesis
        using False c running Cons.IH [of "Suc n" "used + 1"] Cons.prems
        by (simp add: step lim rrf_score_nat zero_denominator_def del: of_nat_Suc)
    qed
  qed
qed

lemma score_of_add_score:
  "score_of (add_score a s d) b = score_of d b + (if a = b then s else 0)"
  by (induction d) (auto simp: score_of_def)

lemma map_fst_add_score:
  "map fst (add_score a s d) = (if a \<in> set (map fst d) then map fst d else map fst d @ [a])"
  by (induction d) force+

lemma keys_add_score: "fst ` set (add_score a s d) = insert a (fst ` set d)"
proof -
  have "set (map fst (add_score a s d)) = insert a (set (map fst d))"
    by (auto simp: map_fst_add_score)
  then show ?thesis by simp
qed

lemma distinct_add_score:
  "distinct (map fst d) \<Longrightarrow> distinct (map fst (add_score a s d))"
  by (induction d) (auto simp: keys_add_score)

lemma score_of_fold_add_entry:
  "score_of (fold (add_entry k) es d) a
     = score_of d a + (\<Sum>e\<leftarrow>es. if snd e = a then rrf_term k (fst e) else 0)"
  by (induction es arbitrary: d) (auto simp: add_entry_def score_of_add_score)

lemma keys_fold_add_entry:
  "fst ` set (fold (add_entry k) es d) = fst ` set d \<union> snd ` set es"
  by (induction es arbitrary: d) (auto simp: add_entry_def keys_add_score)

lemma distinct_fold_add_entry:
  "distinct (map fst d) \<Longrightarrow> distinct (map fst (fold (add_entry k) es d))"
  by (induction es arbitrary: d) (auto simp: add_entry_def distinct_add_score)

lemma score_of_member:
  "distinct (map fst d) \<Longrightarrow> (a, s) \<in> set d \<Longrightarrow> score_of d a = s"
  by (simp add: score_of_def)

lemma has_valid_articles_iff: "has_valid_articles cells \<longleftrightarrow> \<not> list_all is_missing cells"
  by (induction cells) auto

lemma file_has_valid_articles_iff:
  "file_has_valid_articles df q \<longleftrightarrow> \<not> lacks_query df q"
  by (simp add: file_has_valid_articles_def lacks_query_row has_valid_articles_iff
           split: option.splits)

lemma collect_files_char:
  "list_all (\<lambda>df. query_row df q \<noteq> None) dfs \<Longrightarrow>
   collect_files k q dfs d =
     (if zero_denominator k (concat (map (\<lambda>df. file_entries df q) dfs))
      then Inl ZeroDivisionError
      else Inr (fold (add_entry k) (concat (map (\<lambda>df. file_entries df q) dfs)) d))"
proof (induction dfs arbitrary: d)
  case Nil
  then show ?case by (simp add: zero_denominator_def)
next
  case (Cons df dfs)
  then obtain cells where row: "query_row df q = Some cells" by auto
  have one: "collect_row k 1 cells d =
     (if zero_denominator k (valid_entries cells) then Inl ZeroDivisionError
      else Inr (fold (add_entry k) (valid_entries cells) d))"
    using collect_row_from [of 1 k cells d] by (simp add: valid_entries_conv)
  show ?case
    using Cons row one by (simp add: file_entries_row zero_denominator_def)
qed

lemma fused_score_conv:
  "fused_score dfs k q a
     = (\<Sum>e\<leftarrow>concat (map (\<lambda>df. file_entries df q) dfs). if snd e = a then rrf_term k (fst e) else 0)"
proof -
  have "fused_score dfs k q a
          = (\<Sum>df\<leftarrow>dfs. \<Sum>e\<leftarrow>file_entries df q. if snd e = a then rrf_term k (fst e) else 0)"
    unfolding fused_score_def rrf_term_def case_prod_unfold ..
  also have "\<dots> = (\<Sum>e\<leftarrow>concat (map (\<lambda>df. file_entries df q) dfs).
                        if snd e = a then rrf_term k (fst e) else 0)"
    by (induction dfs) simp_all
  finally show ?thesis .
qed

lemma fill_row_conv:
  "fill_row n xs = take (nat n) (map fst xs) @ replicate (nat n - length xs) ''#''"
  by (rule nth_equalityI) (auto simp: fill_row_def nth_append min_def)

lemma empty_row_conv: "empty_row n = replicate (nat n) ''#''"
  by (rule nth_equalityI) (auto simp: empty_row_def)

lemma distinct_map_insort_key:
  "distinct (map g (insort_key f x xs)) \<longleftrightarrow> g x \<notin> g ` set xs \<and> distinct (map g xs)"
  by (induction xs) (auto simp: set_insort_key)

lemma distinct_map_sort_key:
  "distinct (map g (sort_key f xs)) \<longleftrightarrow> distinct (map g xs)"
  by (induction xs) (auto simp: distinct_map_insort_key)

lemma sorted_desc_props:
  "set (sorted_desc d) = set d"
  "length (sorted_desc d) = length d"
  "distinct (map fst (sorted_desc d)) \<longleftrightarrow> distinct (map fst d)"
  "sorted_wrt (\<lambda>x y. snd y \<le> snd x) (sorted_desc d)"
proof -
  show "set (sorted_desc d) = set d" "length (sorted_desc d) = length d"
    by (simp_all add: sorted_desc_def)
  show "distinct (map fst (sorted_desc d)) \<longleftrightarrow> distinct (map fst d)"
    by (simp add: sorted_desc_def distinct_map_sort_key)
  have "sorted (map (\<lambda>x. - snd x) (sorted_desc d))"
    by (simp add: sorted_desc_def)
  then show "sorted_wrt (\<lambda>x y. snd y \<le> snd x) (sorted_desc d)"
    by (simp add: sorted_wrt_map)
qed

lemma ranked_by_score:
  assumes "distinct (map fst d)"
  shows "sorted_wrt (\<lambda>a b. score_of d b \<le> score_of d a) (map fst (sorted_desc d))"
proof -
  have "sorted_wrt (\<lambda>x y. score_of d (fst y) \<le> score_of d (fst x)) (sorted_desc d)"
  proof (rule sorted_wrt_mono_rel [OF _ sorted_desc_props(4)])
    fix x y assume "x \<in> set (sorted_desc d)" "y \<in> set (sorted_desc d)" "snd y \<le> snd x"
    then show "score_of d (fst y) \<le> score_of d (fst x)"
      using assms score_of_member [of d "fst x" "snd x"] score_of_member [of d "fst y" "snd y"]
      by (simp add: sorted_desc_props(1))
  qed
  then show ?thesis by (simp add: sorted_wrt_map)
qed

lemma fused_row:
  "top_by_score (nat n)
     (\<lambda>a. \<Sum>e\<leftarrow>es. if snd e = a then rrf_term k (fst e) else 0) (snd ` set es)
     (fill_row n (sorted_desc (fold (add_entry k) es [])))"
proof -
  let ?d = "fold (add_entry k) es []"
  let ?ranked = "map fst (sorted_desc ?d)"
  have dist: "distinct (map fst ?d)"
    by (rule distinct_fold_add_entry) simp
  have score: "score_of ?d a = (\<Sum>e\<leftarrow>es. if snd e = a then rrf_term k (fst e) else 0)" for a
  proof -
    have "score_of ([] :: (string \<times> rat) list) a = 0" by (simp add: score_of_def)
    then show ?thesis by (simp add: score_of_fold_add_entry)
  qed
  have "distinct ?ranked"
    using dist by (simp add: sorted_desc_props)
  moreover have "set ?ranked = snd ` set es"
    using keys_fold_add_entry [of k es "[]"] by (simp add: sorted_desc_props)
  moreover have "sorted_wrt (\<lambda>a b. (\<Sum>e\<leftarrow>es. if snd e = b then rrf_term k (fst e) else 0)
                               \<le> (\<Sum>e\<leftarrow>es. if snd e = a then rrf_term k (fst e) else 0)) ?ranked"
    using ranked_by_score [OF dist] by (simp only: score)
  moreover have "fill_row n (sorted_desc ?d)
                   = take (nat n) ?ranked @ replicate (nat n - length ?ranked) ''#''"
    by (simp add: fill_row_conv)
  ultimately show ?thesis
    unfolding top_by_score_def by blast
qed

lemma entries_from_rank: "e \<in> set (entries_from n cells) \<Longrightarrow> n \<le> fst e"
  by (induction cells arbitrary: n) (fastforce split: option.splits if_splits)+

lemma file_entries_rank: "e \<in> set (file_entries df q) \<Longrightarrow> 1 \<le> fst e"
  using entries_from_rank [of e 1]
  by (auto simp: file_entries_def valid_entries_conv)

lemma no_zero_denominator:
  "0 \<le> k \<Longrightarrow> \<forall>e\<in>set es. 1 \<le> fst e \<Longrightarrow> \<not> zero_denominator k es"
  by (auto simp: zero_denominator_def list_ex_iff)

lemma query_row_of_valid: "\<not> lacks_query df q \<Longrightarrow> query_row df q \<noteq> None"
  by (cases "query_row df q") (auto simp: lacks_query_row)

lemma rrf_query_char:
  "rrf_query dfs k n q =
     (if \<exists>df\<in>set dfs. lacks_query df q then Inr (replicate (nat n) ''#'')
      else if zero_denominator k (concat (map (\<lambda>df. file_entries df q) dfs))
      then Inl ZeroDivisionError
      else Inr (fill_row n (sorted_desc
                  (fold (add_entry k) (concat (map (\<lambda>df. file_entries df q) dfs)) []))))"
proof (cases "\<exists>df\<in>set dfs. lacks_query df q")
  case True
  then show ?thesis
    by (auto simp: rrf_query_def list_all_iff file_has_valid_articles_iff empty_row_conv)
next
  case False
  then have "list_all (\<lambda>df. query_row df q \<noteq> None) dfs"
    using query_row_of_valid by (auto simp: list_all_iff)
  from collect_files_char [OF this, of k "[]"] False show ?thesis
    by (auto simp: rrf_query_def list_all_iff file_has_valid_articles_iff)
qed

lemma rrf_loop_Inr:
  "rrf_loop body qs = Inr rows \<Longrightarrow> map fst rows = qs \<and> (\<forall>(q, row)\<in>set rows. body q = Inr row)"
  by (induction qs arbitrary: rows) (auto split: sum.splits)

lemma rrf_loop_total:
  "\<forall>q\<in>set qs. \<exists>row. body q = Inr row \<Longrightarrow> \<exists>rows. rrf_loop body qs = Inr rows"
  by (induction qs) (auto split: sum.splits)

lemma sorted_all_query_ids: "sorted (all_query_ids dfs)" "distinct (all_query_ids dfs)"
  by (simp_all add: all_query_ids_def)

lemma perform_rrf_reranking_Inr:
  assumes "perform_rrf_reranking dfs k top_n = Inr result"
  shows "\<exists>n. output_size dfs top_n = Inr n \<and> map fst result = all_query_ids dfs
            \<and> (\<forall>(q, row)\<in>set result. rrf_query dfs k n q = Inr row)"
proof -
  from assms obtain n rows where n: "output_size dfs top_n = Inr n"
    and rows: "rrf_loop (rrf_query dfs k n) (all_query_ids dfs) = Inr rows"
    and res: "result = sort_key fst rows"
    by (auto simp: perform_rrf_reranking_def split: sum.splits if_splits)
  from rrf_loop_Inr [OF rows] have keys: "map fst rows = all_query_ids dfs"
    and body: "\<forall>(q, row)\<in>set rows. rrf_query dfs k n q = Inr row" by auto
  have "sorted (map fst rows)" using keys sorted_all_query_ids by simp
  then have "result = rows" using res by (simp add: sort_key_id_if_sorted)
  with n keys body show ?thesis by auto
qed

text \<open>
  Claim C4. In normal (anti-bias) mode, for every query \<open>q\<close> and its row in the result:
  if some input file is missing \<open>q\<close> (none of its rows has that id) or has no valid
  entry for it, the row is all sentinels, of the output width; otherwise the row is the
  top of the items by their fused score, the sum over the files of \<open>1 / (k + rank)\<close> at
  the ranks where the item appears in the file's row for \<open>q\<close>. The result has one row
  for each query that some input file holds, and for no other; with \<open>k \<ge> 0\<close> no division
  raises and the result is produced.
\<close>

theorem rrf_normal_mode:
  "(perform_rrf_reranking dfs k top_n = Inr result \<and> (q, row) \<in> set result \<longrightarrow>
      (if \<exists>df\<in>set dfs. lacks_query df q then row = sentinel_row (output_width dfs top_n)
       else top_by_score (output_width dfs top_n) (fused_score dfs k q) (fused_items dfs q) row))
   \<and> (perform_rrf_reranking dfs k top_n = Inr result \<longrightarrow>
        fst ` set result = input_queries dfs \<and> distinct (map fst result))
   \<and> (0 \<le> k \<and> q \<in> input_queries dfs \<longrightarrow>
        (\<exists>result row. perform_rrf_reranking dfs k top_n = Inr result \<and> (q, row) \<in> set result))"
proof (intro conjI impI)
  assume run: "perform_rrf_reranking dfs k top_n = Inr result \<and> (q, row) \<in> set result"
  then obtain n where n: "output_size dfs top_n = Inr n"
    and row: "rrf_query dfs k n q = Inr row"
    and keys: "map fst result = all_query_ids dfs"
    using perform_rrf_reranking_Inr [of dfs k top_n result] by auto
  from run keys have "all_query_ids dfs \<noteq> []" by auto
  then have "dfs \<noteq> []" by (auto simp: all_query_ids_def)
  from output_size_width [OF this n] have width: "nat n = output_width dfs top_n" .
  let ?es = "concat (map (\<lambda>df. file_entries df q) dfs)"
  have items: "fused_items dfs q = snd ` set ?es"
    by (auto simp: fused_items_def)
  have "top_by_score (nat n) (fused_score dfs k q) (fused_items dfs q) row"
    if "\<not> (\<exists>df\<in>set dfs. lacks_query df q)"
  proof -
    from row that have "row = fill_row n (sorted_desc (fold (add_entry k) ?es []))"
      by (simp add: rrf_query_char split: if_splits)
    moreover have "fused_score dfs k q = (\<lambda>a. \<Sum>e\<leftarrow>?es. if snd e = a then rrf_term k (fst e) else 0)"
      by (rule ext) (rule fused_score_conv)
    ultimately show ?thesis
      using fused_row [of n k ?es] by (simp only: items)
  qed
  moreover have "row = sentinel_row (nat n)" if "\<exists>df\<in>set dfs. lacks_query df q"
    using row that by (simp add: rrf_query_char sentinel_row_def)
  ultimately show "if \<exists>df\<in>set dfs. lacks_query df q
         then row = sentinel_row (output_width dfs top_n)
         else top_by_score (output_width dfs top_n) (fused_score dfs k q) (fused_items dfs q) row"
    by (simp only: width split: if_splits) simp
next
  assume "perform_rrf_reranking dfs k top_n = Inr result"
  then have keys: "map fst result = all_query_ids dfs"
    using perform_rrf_reranking_Inr [of dfs k top_n result] by auto
  have "fst ` set result = set (map fst result)" by simp
  then show "fst ` set result = input_queries dfs"
    by (simp only: keys set_all_query_ids)
  show "distinct (map fst result)"
    by (simp only: keys sorted_all_query_ids)
next
  assume a: "0 \<le> k \<and> q \<in> input_queries dfs"
  then have q: "q \<in> set (all_query_ids dfs)" by (simp add: set_all_query_ids)
  then have ne: "dfs \<noteq> []" by (auto simp: all_query_ids_def)
  then obtain n where n: "output_size dfs top_n = Inr n"
    by (cases top_n) (auto simp: output_size_def)
  have "\<exists>row. rrf_query dfs k n q' = Inr row" for q'
  proof -
    have "\<not> zero_denominator k (concat (map (\<lambda>df. file_entries df q') dfs))"
      using a by (intro no_zero_denominator) (auto dest: file_entries_rank)
    then show ?thesis by (simp add: rrf_query_char)
  qed
  then obtain rows where rows: "rrf_loop (rrf_query dfs k n) (all_query_ids dfs) = Inr rows"
    using rrf_loop_total [of "all_query_ids dfs" "rrf_query dfs k n"] by blast
  from rrf_loop_Inr [OF rows] have keys: "map fst rows = all_query_ids dfs" by simp
  with q have "rows \<noteq> []" by auto
  then have res: "perform_rrf_reranking dfs k top_n = Inr (sort_key fst rows)"
    using n rows by (simp add: perform_rrf_reranking_def)
  from q keys have "q \<in> fst ` set rows" by (metis set_map)
  then obtain row where "(q, row) \<in> set (sort_key fst rows)" by auto
  with res show "\<exists>result row. perform_rrf_reranking dfs k top_n = Inr result \<and> (q, row) \<in> set result"
    by blast
qed

text \<open>
  Two files: both hold \<open>q1\<close>, only the second holds \<open>q2\<close>. The row of \<open>q1\<close> is the top
  of its items by the fused score, the row of \<open>q2\<close> is all sentinels.
\<close>

theorem rrf_normal_mode_witness:
  "perform_rrf_reranking
       [\<lparr>n_article_cols = 2, df_rows = [(''q1'', [Some ''a'', Some ''b''])]\<rparr>,
        \<lparr>n_article_cols = 2, df_rows = [(''q1'', [Some ''b'', Some ''#'']),
                                        (''q2'', [Some ''c'', Some ''d''])]\<rparr>] 60 None
     = Inr [(''q1'', [''b'', ''a'']), (''q2'', [''#'', ''#''])]
   \<and> input_queries
       [\<lparr>n_article_cols = 2, df_rows = [(''q1'', [Some ''a'', Some ''b''])]\<rparr>,
        \<lparr>n_article_cols = 2, df_rows = [(''q1'', [Some ''b'', Some ''#'']),
                                        (''q2'', [Some ''c'', Some ''d''])]\<rparr>]
     = {''q1'', ''q2''}
   \<and> top_by_score 2
        (fused_score
           [\<lparr>n_article_cols = 2, df_rows = [(''q1'', [Some ''a'', Some ''b''])]\<rparr>,
            \<lparr>n_article_cols = 2, df_rows = [(''q1'', [Some ''b'', Some ''#'']),
                                            (''q2'', [Some ''c'', Some ''d''])]\<rparr>] 60 ''q1'')
        (fused_items
           [\<lparr>n_article_cols = 2, df_rows = [(''q1'', [Some ''a'', Some ''b''])]\<rparr>,
            \<lparr>n_article_cols = 2, df_rows = [(''q1'', [Some ''b'', Some ''#'']),
                                            (''q2'', [Some ''c'', Some ''d''])]\<rparr>] ''q1'')
        [''b'', ''a'']
   \<and> \<not> holds_query \<lparr>n_article_cols = 2, df_rows = [(''q1'', [Some ''a'', Some ''b''])]\<rparr> ''q2''
   \<and> [''#'', ''#''] = sentinel_row 2"
proof -
  let ?A = "\<lparr>n_article_cols = 2, df_rows = [(''q1'', [Some ''a'', Some ''b''])]\<rparr>"
  let ?dfs = "[?A, \<lparr>n_article_cols = 2, df_rows = [(''q1'', [Some ''b'', Some ''#'']),
                                                   (''q2'', [Some ''c'', Some ''d''])]\<rparr>]"
  let ?result = "[(''q1'', [''b'', ''a'']), (''q2'', [''#'', ''#''])]"
  have run: "perform_rrf_reranking ?dfs 60 None = Inr ?result"
    by code_simp
  have width: "output_width ?dfs None = 2"
    by (simp add: output_width_def)
  have valid: "\<not> (\<exists>df\<in>set ?dfs. lacks_query df ''q1'')"
    by (simp add: lacks_query_def holds_query_def cells_of_def strip_def py_isspace_def)
  have missing: "\<not> holds_query ?A ''q2''"
    by (simp add: holds_query_def)
  then have lacks: "\<exists>df\<in>set ?dfs. lacks_query df ''q2''"
    by (simp add: lacks_query_def)
  note one = rrf_normal_mode [of ?dfs 60 None ?result "''q1''" "[''b'', ''a'']"]
  note two = rrf_normal_mode [of ?dfs 60 None ?result "''q2''" "[''#'', ''#'']"]
  from one run valid width
  have top: "top_by_score 2 (fused_score ?dfs 60 ''q1'') (fused_items ?dfs ''q1'') [''b'', ''a'']"
    by simp
  from two run lacks width have row: "[''#'', ''#''] = sentinel_row 2"
    by simp
  from one run have "fst ` set ?result = input_queries ?dfs"
    by blast
  then have ids: "input_queries ?dfs = {''q1'', ''q2''}"
    by simp
  from run ids top missing row show ?thesis by blast
qed

subsection \<open>Adaptive mode\<close>

lemma sum_list_concat_map:
  "(\<Sum>x\<leftarrow>xs. \<Sum>e\<leftarrow>f x. g e) = (\<Sum>e\<leftarrow>concat (map f xs). g e)"
  by (induction xs) simp_all

text \<open>The first pass counts the leading valid entries of the file's row for the query.\<close>

lemma valid_article_count_conv:
  "valid_article_count cells = length (takeWhile (\<lambda>c. \<not> is_missing c) cells)"
  by (induction cells) auto

lemma query_article_count_conv: "query_article_count df q = leading_count df q"
  by (simp add: query_article_count_def query_row_conv leading_count_def
        valid_article_count_conv cells_of_missing)

lemma collect_files_adaptive_char:
  "list_all (\<lambda>df. query_row df q \<noteq> None) dfs \<Longrightarrow>
   collect_files_adaptive k limit q dfs d =
     (if zero_denominator k (concat (map (\<lambda>df. take limit (file_entries df q)) dfs))
      then Inl ZeroDivisionError
      else Inr (fold (add_entry k) (concat (map (\<lambda>df. take limit (file_entries df q)) dfs)) d))"
proof (induction dfs arbitrary: d)
  case Nil
  then show ?case by (simp add: zero_denominator_def)
next
  case (Cons df dfs)
  then obtain cells where row: "query_row df q = Some cells" by auto
  have one: "collect_row_adaptive k limit 1 0 cells d =
     (if zero_denominator k (take limit (valid_entries cells)) then Inl ZeroDivisionError
      else Inr (fold (add_entry k) (take limit (valid_entries cells)) d))"
    using collect_row_adaptive_from [of 1 k limit 0 cells d] by (simp add: valid_entries_conv)
  show ?case
    using Cons row one by (simp add: file_entries_row zero_denominator_def)
qed

lemma dynamic_limit_cap:
  "dfs \<noteq> [] \<Longrightarrow>
   dynamic_limit (map (\<lambda>df. query_article_count df q) dfs) = Inr (adaptive_cap dfs q)"
  by (simp add: dynamic_limit_def adaptive_cap_def query_article_count_conv mult.commute)

lemma query_row_of_counted: "leading_count df q \<noteq> 0 \<Longrightarrow> query_row df q \<noteq> None"
  by (cases "holds_query df q") (auto simp: query_row_conv leading_count_def cells_of_missing)

lemma rrf_query_adaptive_char:
  assumes "dfs \<noteq> []"
  shows "rrf_query_adaptive dfs k n q =
     (if \<exists>df\<in>set dfs. leading_count df q = 0 then Inr (replicate (nat n) ''#'')
      else if zero_denominator k (concat (map (capped_entries dfs q) dfs))
      then Inl ZeroDivisionError
      else Inr (fill_row n (sorted_desc
                  (fold (add_entry k) (concat (map (capped_entries dfs q) dfs)) []))))"
proof (cases "\<exists>df\<in>set dfs. leading_count df q = 0")
  case True
  then show ?thesis
    by (auto simp: rrf_query_adaptive_def Let_def list_all_iff empty_row_conv
          query_article_count_conv)
next
  case False
  then have rows: "list_all (\<lambda>df. query_row df q \<noteq> None) dfs"
    using query_row_of_counted by (auto simp: list_all_iff)
  have caps: "(\<lambda>df. take (adaptive_cap dfs q) (file_entries df q)) = capped_entries dfs q"
    by (rule ext) (simp add: capped_entries_def)
  from False have "list_all (\<lambda>b. b) (map (\<lambda>n. 0 < n) (map (\<lambda>df. query_article_count df q) dfs))"
    by (auto simp: list_all_iff query_article_count_conv)
  then have "rrf_query_adaptive dfs k n q =
       (if zero_denominator k (concat (map (capped_entries dfs q) dfs))
        then Inl ZeroDivisionError
        else Inr (fill_row n (sorted_desc
                    (fold (add_entry k) (concat (map (capped_entries dfs q) dfs)) []))))"
    using collect_files_adaptive_char [OF rows, of k "adaptive_cap dfs q" "[]"]
          dynamic_limit_cap [OF assms, of q]
    by (simp add: rrf_query_adaptive_def Let_def caps)
  with False show ?thesis by (simp only: if_False)
qed

lemma rank_capped_score_conv:
  "rank_capped_score dfs k q a
     = (\<Sum>e\<leftarrow>concat (map (rank_capped_entries dfs q) dfs).
          if snd e = a then rrf_term k (fst e) else 0)"
proof -
  have "rank_capped_score dfs k q a
          = (\<Sum>df\<leftarrow>dfs. \<Sum>e\<leftarrow>rank_capped_entries dfs q df.
               if snd e = a then rrf_term k (fst e) else 0)"
    unfolding rank_capped_score_def rrf_term_def case_prod_unfold ..
  then show ?thesis by (simp only: sum_list_concat_map)
qed

lemma entries_from_all_missing: "list_all is_missing cells \<Longrightarrow> entries_from n cells = []"
  by (induction cells arbitrary: n) (auto split: option.splits)

lemma take_entries_from_trailing:
  "list_all is_missing (dropWhile (\<lambda>c. \<not> is_missing c) cells) \<Longrightarrow>
   take cap (entries_from n cells) = filter (\<lambda>e. fst e < n + cap) (entries_from n cells)"
proof (induction cells arbitrary: n cap)
  case Nil
  then show ?case by simp
next
  case (Cons c cs)
  show ?case
  proof (cases "is_missing c")
    case True
    with Cons.prems have "list_all is_missing (c # cs)" by simp
    then show ?thesis by (simp only: entries_from_all_missing) simp
  next
    case False
    then obtain a where c: "c = Some a" by (cases c) auto
    from False Cons.prems have tl: "list_all is_missing (dropWhile (\<lambda>c. \<not> is_missing c) cs)"
      by simp
    have above: "filter (\<lambda>e. fst e < n) (entries_from (Suc n) cs) = []"
      by (fastforce simp: filter_empty_conv dest: entries_from_rank)
    show ?thesis
    proof (cases cap)
      case 0
      then show ?thesis using False c above by simp
    next
      case (Suc cap')
      then show ?thesis
        using False c Cons.IH [OF tl, of cap' "Suc n"] by simp
    qed
  qed
qed

lemma capped_entries_trailing:
  assumes "sentinels_trailing df q"
  shows "capped_entries dfs q df = rank_capped_entries dfs q df"
  using take_entries_from_trailing [OF assms [unfolded sentinels_trailing_def],
                                    of "adaptive_cap dfs q" 1]
  by (simp add: capped_entries_def rank_capped_entries_def file_entries_def
        valid_entries_conv less_Suc_eq_le)

text \<open>
  The entries within the cap are the valid entries among the first \<open>cap\<close> cells of the
  row, whatever the row.
\<close>

lemma entries_from_take:
  "entries_from n (take cap cells) = filter (\<lambda>e. fst e < n + cap) (entries_from n cells)"
proof (induction cells arbitrary: n cap)
  case Nil
  then show ?case by simp
next
  case (Cons c cs)
  have above: "filter (\<lambda>e. fst e < n) (entries_from (Suc n) cs) = []"
    by (fastforce simp: filter_empty_conv dest: entries_from_rank)
  show ?case
  proof (cases cap)
    case 0
    then show ?thesis using above by (auto split: option.splits)
  next
    case (Suc cap')
    then show ?thesis
      using Cons.IH [of "Suc n" cap'] by (auto split: option.splits)
  qed
qed

lemma rank_capped_entries_first_cells:
  "rank_capped_entries dfs q df = valid_entries (take (adaptive_cap dfs q) (cells_of df q))"
  using entries_from_take [of 1 "adaptive_cap dfs q" "cells_of df q"]
  by (simp add: rank_capped_entries_def file_entries_def valid_entries_conv less_Suc_eq_le)

lemma perform_rrf_reranking_adaptive_Inr:
  assumes "perform_rrf_reranking_adaptive dfs k top_n = Inr result"
  shows "\<exists>n. output_size dfs top_n = Inr n \<and> map fst result = all_query_ids dfs
            \<and> (\<forall>(q, row)\<in>set result. rrf_query_adaptive dfs k n q = Inr row)"
proof -
  from assms obtain n rows where n: "output_size dfs top_n = Inr n"
    and rows: "rrf_loop (rrf_query_adaptive dfs k n) (all_query_ids dfs) = Inr rows"
    and res: "result = sort_key fst rows"
    by (auto simp: perform_rrf_reranking_adaptive_def split: sum.splits if_splits)
  from rrf_loop_Inr [OF rows] have keys: "map fst rows = all_query_ids dfs"
    and body: "\<forall>(q, row)\<in>set rows. rrf_query_adaptive dfs k n q = Inr row" by auto
  have "sorted (map fst rows)" using keys sorted_all_query_ids by simp
  then have "result = rows" using res by (simp add: sort_key_id_if_sorted)
  with n keys body show ?thesis by auto
qed

text \<open>
  Claim C5. In adaptive mode, with \<open>m\<close> the least count of leading valid entries over
  the files and \<open>cap = min (2 m) (the greatest count)\<close>: a query for which some file has
  no leading valid entry (or which the file does not hold) gets an all-sentinel row;
  otherwise, the rows of the files for the query being ranked lists, whose sentinels are
  trailing padding, the row of the result is the top of the items by the sum, over the
  files, of \<open>1 / (k + rank)\<close> over the file's entries at a rank of at most \<open>cap\<close>: only
  the first \<open>cap\<close> entries of a file contribute and no item at a greater rank has a part
  in the score. The result has one row for each query that some input file holds; with
  \<open>k \<ge> 0\<close> no division raises and the result is produced.
\<close>

theorem rrf_adaptive_mode:
  "(perform_rrf_reranking_adaptive dfs k top_n = Inr result \<and> (q, row) \<in> set result \<longrightarrow>
      (if \<exists>df\<in>set dfs. leading_count df q = 0 then row = sentinel_row (output_width dfs top_n)
       else (\<forall>df\<in>set dfs. sentinels_trailing df q) \<longrightarrow>
            top_by_score (output_width dfs top_n) (rank_capped_score dfs k q)
              (rank_capped_items dfs q) row))
   \<and> (perform_rrf_reranking_adaptive dfs k top_n = Inr result \<longrightarrow>
        fst ` set result = input_queries dfs \<and> distinct (map fst result))
   \<and> (0 \<le> k \<and> q \<in> input_queries dfs \<longrightarrow>
        (\<exists>result row. perform_rrf_reranking_adaptive dfs k top_n = Inr result
                        \<and> (q, row) \<in> set result))"
proof (intro conjI impI)
  assume run: "perform_rrf_reranking_adaptive dfs k top_n = Inr result \<and> (q, row) \<in> set result"
  then obtain n where n: "output_size dfs top_n = Inr n"
    and row: "rrf_query_adaptive dfs k n q = Inr row"
    and keys: "map fst result = all_query_ids dfs"
    using perform_rrf_reranking_adaptive_Inr [of dfs k top_n result] by auto
  from run keys have "all_query_ids dfs \<noteq> []" by auto
  then have ne: "dfs \<noteq> []" by (auto simp: all_query_ids_def)
  from output_size_width [OF ne n] have width: "nat n = output_width dfs top_n" .
  let ?es = "concat (map (rank_capped_entries dfs q) dfs)"
  have items: "rank_capped_items dfs q = snd ` set ?es"
    by (auto simp: rank_capped_items_def)
  have "top_by_score (nat n) (rank_capped_score dfs k q) (rank_capped_items dfs q) row"
    if counts: "\<not> (\<exists>df\<in>set dfs. leading_count df q = 0)"
      and trailing: "\<forall>df\<in>set dfs. sentinels_trailing df q"
  proof -
    from trailing have eq: "map (capped_entries dfs q) dfs = map (rank_capped_entries dfs q) dfs"
      by (intro map_cong refl capped_entries_trailing) simp
    from row counts
    have "row = fill_row n (sorted_desc
                  (fold (add_entry k) (concat (map (capped_entries dfs q) dfs)) []))"
      by (simp add: rrf_query_adaptive_char [OF ne] split: if_splits)
    then have "row = fill_row n (sorted_desc (fold (add_entry k) ?es []))"
      by (simp only: eq)
    moreover have "rank_capped_score dfs k q
                     = (\<lambda>a. \<Sum>e\<leftarrow>?es. if snd e = a then rrf_term k (fst e) else 0)"
      by (rule ext) (rule rank_capped_score_conv)
    ultimately show ?thesis
      using fused_row [of n k ?es] by (simp only: items)
  qed
  moreover have "row = sentinel_row (nat n)" if "\<exists>df\<in>set dfs. leading_count df q = 0"
    using row that by (simp add: rrf_query_adaptive_char [OF ne] sentinel_row_def)
  ultimately show "if \<exists>df\<in>set dfs. leading_count df q = 0
         then row = sentinel_row (output_width dfs top_n)
         else (\<forall>df\<in>set dfs. sentinels_trailing df q) \<longrightarrow>
              top_by_score (output_width dfs top_n) (rank_capped_score dfs k q)
                (rank_capped_items dfs q) row"
    by (simp only: width split: if_splits) simp
next
  assume "perform_rrf_reranking_adaptive dfs k top_n = Inr result"
  then have keys: "map fst result = all_query_ids dfs"
    using perform_rrf_reranking_adaptive_Inr [of dfs k top_n result] by auto
  have "fst ` set result = set (map fst result)" by simp
  then show "fst ` set result = input_queries dfs"
    by (simp only: keys set_all_query_ids)
  show "distinct (map fst result)"
    by (simp only: keys sorted_all_query_ids)
next
  assume a: "0 \<le> k \<and> q \<in> input_queries dfs"
  then have q: "q \<in> set (all_query_ids dfs)" by (simp add: set_all_query_ids)
  then have ne: "dfs \<noteq> []" by (auto simp: all_query_ids_def)
  then obtain n where n: "output_size dfs top_n = Inr n"
    by (cases top_n) (auto simp: output_size_def)
  have "\<exists>row. rrf_query_adaptive dfs k n q' = Inr row" for q'
  proof -
    have "\<not> zero_denominator k (concat (map (capped_entries dfs q') dfs))"
      using a by (intro no_zero_denominator)
                 (auto simp: capped_entries_def dest!: in_set_takeD file_entries_rank)
    then show ?thesis by (simp add: rrf_query_adaptive_char [OF ne])
  qed
  then obtain rows
    where rows: "rrf_loop (rrf_query_adaptive dfs k n) (all_query_ids dfs) = Inr rows"
    using rrf_loop_total [of "all_query_ids dfs" "rrf_query_adaptive dfs k n"] by blast
  from rrf_loop_Inr [OF rows] have keys: "map fst rows = all_query_ids dfs" by simp
  with q have "rows \<noteq> []" by auto
  then have res: "perform_rrf_reranking_adaptive dfs k top_n = Inr (sort_key fst rows)"
    using n rows by (simp add: perform_rrf_reranking_adaptive_def)
  from q keys have "q \<in> fst ` set rows" by (metis set_map)
  then obtain row where "(q, row) \<in> set (sort_key fst rows)" by auto
  with res show "\<exists>result row. perform_rrf_reranking_adaptive dfs k top_n = Inr result
                                \<and> (q, row) \<in> set result"
    by blast
qed

text \<open>
  Two files. For \<open>q1\<close> the counts are 5 and 2 and the cap is 4: the fifth entry of the
  first file, \<open>e\<close>, has no part in the row. Only the second file holds \<open>q2\<close>, whose row
  is all sentinels.
\<close>

theorem rrf_adaptive_mode_witness:
  "perform_rrf_reranking_adaptive
       [\<lparr>n_article_cols = 7, df_rows = [(''q1'', [Some ''a'', Some ''b'', Some ''c'', Some ''d'', Some ''e'', Some ''#'', Some ''#''])]\<rparr>,
        \<lparr>n_article_cols = 4, df_rows = [(''q1'', [Some ''b'', Some ''f'', Some ''#'', Some ''#'']),
                                        (''q2'', [Some ''x'', Some ''#'', Some ''#'', Some ''#''])]\<rparr>] 60 None
     = Inr [(''q1'', [''b'', ''a'', ''f'', ''c'', ''d'', ''#'', ''#'']),
            (''q2'', [''#'', ''#'', ''#'', ''#'', ''#'', ''#'', ''#''])]
   \<and> adaptive_cap
       [\<lparr>n_article_cols = 7, df_rows = [(''q1'', [Some ''a'', Some ''b'', Some ''c'', Some ''d'', Some ''e'', Some ''#'', Some ''#''])]\<rparr>,
        \<lparr>n_article_cols = 4, df_rows = [(''q1'', [Some ''b'', Some ''f'', Some ''#'', Some ''#'']),
                                        (''q2'', [Some ''x'', Some ''#'', Some ''#'', Some ''#''])]\<rparr>] ''q1''
     = 4
   \<and> top_by_score 7
        (rank_capped_score
           [\<lparr>n_article_cols = 7, df_rows = [(''q1'', [Some ''a'', Some ''b'', Some ''c'', Some ''d'', Some ''e'', Some ''#'', Some ''#''])]\<rparr>,
            \<lparr>n_article_cols = 4, df_rows = [(''q1'', [Some ''b'', Some ''f'', Some ''#'', Some ''#'']),
                                            (''q2'', [Some ''x'', Some ''#'', Some ''#'', Some ''#''])]\<rparr>] 60 ''q1'')
        (rank_capped_items
           [\<lparr>n_article_cols = 7, df_rows = [(''q1'', [Some ''a'', Some ''b'', Some ''c'', Some ''d'', Some ''e'', Some ''#'', Some ''#''])]\<rparr>,
            \<lparr>n_article_cols = 4, df_rows = [(''q1'', [Some ''b'', Some ''f'', Some ''#'', Some ''#'']),
                                            (''q2'', [Some ''x'', Some ''#'', Some ''#'', Some ''#''])]\<rparr>] ''q1'')
        [''b'', ''a'', ''f'', ''c'', ''d'', ''#'', ''#'']
   \<and> leading_count
        \<lparr>n_article_cols = 7, df_rows = [(''q1'', [Some ''a'', Some ''b'', Some ''c'', Some ''d'', Some ''e'', Some ''#'', Some ''#''])]\<rparr> ''q2''
      = 0
   \<and> [''#'', ''#'', ''#'', ''#'', ''#'', ''#'', ''#''] = sentinel_row 7"
proof -
  let ?A = "\<lparr>n_article_cols = 7, df_rows = [(''q1'', [Some ''a'', Some ''b'', Some ''c'', Some ''d'', Some ''e'', Some ''#'', Some ''#''])]\<rparr>"
  let ?B = "\<lparr>n_article_cols = 4, df_rows = [(''q1'', [Some ''b'', Some ''f'', Some ''#'', Some ''#'']),
                                           (''q2'', [Some ''x'', Some ''#'', Some ''#'', Some ''#''])]\<rparr>"
  let ?dfs = "[?A, ?B]"
  let ?row = "[''b'', ''a'', ''f'', ''c'', ''d'', ''#'', ''#'']"
  let ?none = "[''#'', ''#'', ''#'', ''#'', ''#'', ''#'', ''#'']"
  let ?result = "[(''q1'', ?row), (''q2'', ?none)]"
  have run: "perform_rrf_reranking_adaptive ?dfs 60 None = Inr ?result"
    by code_simp
  have width: "output_width ?dfs None = 7"
    by (simp add: output_width_def)
  have count_A: "leading_count ?A ''q1'' = 5" and count_B: "leading_count ?B ''q1'' = 2"
    by (simp_all add: leading_count_def cells_of_def strip_def py_isspace_def)
  then have cap: "adaptive_cap ?dfs ''q1'' = 4"
    by (simp add: adaptive_cap_def)
  from count_A count_B have valid: "\<not> (\<exists>df\<in>set ?dfs. leading_count df ''q1'' = 0)"
    by simp
  have trailing: "\<forall>df\<in>set ?dfs. sentinels_trailing df ''q1''"
    by (simp add: sentinels_trailing_def cells_of_def strip_def py_isspace_def)
  have missing: "leading_count ?A ''q2'' = 0"
    by (simp add: leading_count_def cells_of_def)
  then have skipped: "\<exists>df\<in>set ?dfs. leading_count df ''q2'' = 0"
    by simp
  note one = rrf_adaptive_mode [of ?dfs 60 None ?result "''q1''" ?row]
  note two = rrf_adaptive_mode [of ?dfs 60 None ?result "''q2''" ?none]
  from one run valid trailing width
  have top: "top_by_score 7 (rank_capped_score ?dfs 60 ''q1'') (rank_capped_items ?dfs ''q1'') ?row"
    by simp
  from two run skipped width have row: "?none = sentinel_row 7"
    by simp
  from run cap top missing row show ?thesis by blast
qed

text \<open>
  Claim C10. In both modes the rank of a contribution is the index of the item's column:
  the loop over a row adds, for each valid entry \<open>(r, item)\<close> of the row in column order,
  the term \<open>1 / (k + r)\<close> to the item's score, missing cells being passed over without
  renumbering; in adaptive mode it does so for the first \<open>limit\<close> valid entries, however
  many columns that takes. It raises exactly when one of these ranks has \<open>k + r = 0\<close>.
\<close>

theorem rank_is_column_index:
  "collect_row k 1 cells d =
     (if zero_denominator k (valid_entries cells) then Inl ZeroDivisionError
      else Inr (fold (add_entry k) (valid_entries cells) d))
   \<and> collect_row_adaptive k limit 1 0 cells d =
     (if zero_denominator k (take limit (valid_entries cells)) then Inl ZeroDivisionError
      else Inr (fold (add_entry k) (take limit (valid_entries cells)) d))"
  using collect_row_from [of 1 k cells d] collect_row_adaptive_from [of 1 k limit 0 cells d]
  by (simp add: valid_entries_conv)


theorem rank_is_column_index_witness:
  "collect_row 60 1 [Some ''#'', None, Some ''a'', Some ''b''] []
     = Inr [(''a'', 1 / 63), (''b'', 1 / 64)]
   \<and> collect_row_adaptive 60 1 1 0 [Some ''#'', None, Some ''a'', Some ''b''] []
     = Inr [(''a'', 1 / 63)]"
proof -
  let ?cells = "[Some ''#'', None, Some ''a'', Some ''b'']"
  have entries: "valid_entries ?cells = [(3, ''a''), (4, ''b'')]"
    by code_simp
  have "\<not> zero_denominator 60 [(3, ''a''), (4, ''b'')]"
       "\<not> zero_denominator 60 (take 1 [(3, ''a''), (4, ''b'')])"
       "fold (add_entry 60) [(3, ''a''), (4, ''b'')] [] = [(''a'', 1 / 63), (''b'', 1 / 64)]"
       "fold (add_entry 60) (take 1 [(3, ''a''), (4, ''b'')]) [] = [(''a'', 1 / 63)]"
    by code_simp+
  with rank_is_column_index [of 60 ?cells "[]" 1] entries show ?thesis
    by simp
qed

section \<open>Properties of the entity-weighted article search\<close>

lemma build_should_queries_empty_text:
  "\<forall>e\<in>set es. stripped_text e = Inr [] \<Longrightarrow> build_should_queries self es qs = Inr qs"
  by (induction es arbitrary: qs) simp_all

text \<open>
  Claim C9. The article search returns the empty list, and no exception reaches the
  caller, when the entity list is empty, when every entity has an empty text (the key is
  absent, or the text is blank), and when the request to the index raises or comes back
  with a status other than 200. Whenever the loop over the entities has built its
  clauses, whatever the index answers, the search returns a list.
\<close>

theorem search_articles_failures_empty:
  "search_articles_for_query self post [] top_k = Inr []
   \<and> ((\<forall>e\<in>set es. stripped_text e = Inr []) \<longrightarrow>
        search_articles_for_query self post es top_k = Inr [])
   \<and> (build_should_queries self es [] = Inr qs
        \<and> (post (articles_index self) qs top_k = RequestException
            \<or> (\<exists>status_code body. post (articles_index self) qs top_k = Response status_code body
                                    \<and> status_code \<noteq> 200)) \<longrightarrow>
        search_articles_for_query self post es top_k = Inr [])
   \<and> (build_should_queries self es [] = Inr qs \<longrightarrow>
        (\<exists>rs. search_articles_for_query self post es top_k = Inr rs))"
proof (intro conjI impI)
  show "search_articles_for_query self post [] top_k = Inr []"
    by (simp add: search_articles_for_query_def)
next
  assume "\<forall>e\<in>set es. stripped_text e = Inr []"
  then have "build_should_queries self es [] = Inr []"
    by (rule build_should_queries_empty_text)
  then show "search_articles_for_query self post es top_k = Inr []"
    by (simp add: search_articles_for_query_def)
next
  assume "build_should_queries self es [] = Inr qs
        \<and> (post (articles_index self) qs top_k = RequestException
            \<or> (\<exists>status_code body. post (articles_index self) qs top_k = Response status_code body
                                    \<and> status_code \<noteq> 200))"
  then show "search_articles_for_query self post es top_k = Inr []"
    by (auto simp: search_articles_for_query_def)
next
  assume "build_should_queries self es [] = Inr qs"
  then show "\<exists>rs. search_articles_for_query self post es top_k = Inr rs"
    by (auto simp: search_articles_for_query_def split: es_outcome.splits es_body.splits sum.splits)
qed

theorem search_articles_failures_empty_witness:
  "stripped_text \<lparr>entity_text = Some (PyStr ''  ''), entity_label = Some (PyStr ''PERSON'')\<rparr> = Inr []
   \<and> search_articles_for_query
        \<lparr>articles_index = ''articles'', entity_weights = default_entity_weights\<rparr>
        (\<lambda>index should_queries size. Response 200 (Hits []))
        [\<lparr>entity_text = Some (PyStr ''  ''), entity_label = Some (PyStr ''PERSON'')\<rparr>] 10 = Inr []
   \<and> build_should_queries
        \<lparr>articles_index = ''articles'', entity_weights = default_entity_weights\<rparr>
        [\<lparr>entity_text = Some (PyStr ''Messi''), entity_label = Some (PyStr ''PERSON'')\<rparr>] []
      = Inr [WeightedQuery ''Messi'' ''messi'' 4.3,
             SameLabelQuery ''Messi'' (PyStr ''PERSON'') (4.3 * 1.3)]
   \<and> search_articles_for_query
        \<lparr>articles_index = ''articles'', entity_weights = default_entity_weights\<rparr>
        (\<lambda>index should_queries size. Response 503 NotJson)
        [\<lparr>entity_text = Some (PyStr ''Messi''), entity_label = Some (PyStr ''PERSON'')\<rparr>] 10 = Inr []"
proof -
  let ?self = "\<lparr>articles_index = ''articles'', entity_weights = default_entity_weights\<rparr>"
  let ?blank = "\<lparr>entity_text = Some (PyStr ''  ''), entity_label = Some (PyStr ''PERSON'')\<rparr>"
  let ?messi = "\<lparr>entity_text = Some (PyStr ''Messi''), entity_label = Some (PyStr ''PERSON'')\<rparr>"
  let ?qs = "[WeightedQuery ''Messi'' ''messi'' 4.3,
              SameLabelQuery ''Messi'' (PyStr ''PERSON'') (4.3 * 1.3)]"
  have blank: "stripped_text ?blank = Inr []"
    by code_simp
  have built: "build_should_queries ?self [?messi] [] = Inr ?qs"
    by code_simp
  from search_articles_failures_empty
         [of ?self "\<lambda>index should_queries size. Response 200 (Hits [])" 10 "[?blank]"] blank
  have one: "search_articles_for_query ?self (\<lambda>index should_queries size. Response 200 (Hits []))
               [?blank] 10 = Inr []"
    by simp
  from search_articles_failures_empty
         [of ?self "\<lambda>index should_queries size. Response 503 NotJson" 10 "[?messi]" ?qs] built
  have two: "search_articles_for_query ?self (\<lambda>index should_queries size. Response 503 NotJson)
               [?messi] 10 = Inr []"
    by simp
  from blank one built two show ?thesis by blast
qed

section \<open>Properties of the rank-aware booster\<close>

text \<open>
  Claim C6. In sigmoid mode a similarity below 0.5 gets the boost 0, whatever the
  weights, the bias, the maximum boost and the article rank are; and every result of the
  boosted search whose similarity is below 0.5 has boost 0 and a final score equal to its
  similarity.
\<close>

theorem sigmoid_floor:
  assumes "use_sigmoid_boosting self"
  shows "(s < 0.5 \<longrightarrow> calculate_sigmoid_boost self s r = Inr 0)
       \<and> (\<forall>x\<in>set (search_similar_images_with_ranking_boost self client collection_name
                      query_vector candidate_image_ids article_rank_map top_k).
            result_base_score x < 0.5 \<longrightarrow>
              result_ranking_boost x = 0 \<and> result_score x = result_base_score x)"
proof (rule conjI)
  show "s < 0.5 \<longrightarrow> calculate_sigmoid_boost self s r = Inr 0"
    using assms by (simp add: calculate_sigmoid_boost_def)
next
  have hits: "boost_hits self m hs = Inr rs \<Longrightarrow> y \<in> set rs \<Longrightarrow> result_base_score y < 0.5 \<Longrightarrow>
              result_ranking_boost y = 0 \<and> result_score y = result_base_score y" for m hs rs y
  proof (induction hs arbitrary: rs)
    case Nil
    then show ?case by simp
  next
    case (Cons h hs)
    then show ?case
      using assms
      by (auto simp: Let_def calculate_sigmoid_boost_def split: sum.splits if_splits)
  qed
  show "\<forall>x\<in>set (search_similar_images_with_ranking_boost self client collection_name
                      query_vector candidate_image_ids article_rank_map top_k).
            result_base_score x < 0.5 \<longrightarrow>
              result_ranking_boost x = 0 \<and> result_score x = result_base_score x"
  proof (intro ballI impI)
    fix x
    assume mem: "x \<in> set (search_similar_images_with_ranking_boost self client collection_name
                      query_vector candidate_image_ids article_rank_map top_k)"
      and low: "result_base_score x < 0.5"
    show "result_ranking_boost x = 0 \<and> result_score x = result_base_score x"
    proof (cases "search client collection_name query_vector (Some candidate_image_ids) top_k")
      case None
      with mem show ?thesis
        by (simp add: search_similar_images_with_ranking_boost_def)
    next
      case (Some hs)
      show ?thesis
      proof (cases "boost_hits self article_rank_map hs")
        case (Inl e)
        with Some mem show ?thesis
          by (simp add: search_similar_images_with_ranking_boost_def)
      next
        case (Inr rs)
        with Some mem have "x \<in> set rs"
          by (simp add: search_similar_images_with_ranking_boost_def)
        with Inr low show ?thesis using hits by blast
      qed
    qed
  qed
qed

theorem sigmoid_floor_witness:
  "use_sigmoid_boosting
     \<lparr>private_test_mode = False, primary_checkpoint = ''Initialized'', enable_multi_model = True,
      model_weights = [], model_families = None, active_model_weights = None,
      active_families = None, article_to_images = [], article_ranking_boost = 0.3,
      rrf_k = 60, multi_model_rrf_k = 50, use_voting = False, use_sigmoid_boosting = True,
      similarity_weight = 10, rank_weight = 2.5, sigmoid_bias = 0, max_boost_factor = 0.5\<rparr>
   \<and> calculate_sigmoid_boost
     \<lparr>private_test_mode = False, primary_checkpoint = ''Initialized'', enable_multi_model = True,
      model_weights = [], model_families = None, active_model_weights = None,
      active_families = None, article_to_images = [], article_ranking_boost = 0.3,
      rrf_k = 60, multi_model_rrf_k = 50, use_voting = False, use_sigmoid_boosting = True,
      similarity_weight = 10, rank_weight = 2.5, sigmoid_bias = 0, max_boost_factor = 0.5\<rparr>
     0.4 1 = Inr 0
   \<and> search_similar_images_with_ranking_boost
     \<lparr>private_test_mode = False, primary_checkpoint = ''Initialized'', enable_multi_model = True,
      model_weights = [], model_families = None, active_model_weights = None,
      active_families = None, article_to_images = [], article_ranking_boost = 0.3,
      rrf_k = 60, multi_model_rrf_k = 50, use_voting = False, use_sigmoid_boosting = True,
      similarity_weight = 10, rank_weight = 2.5, sigmoid_bias = 0, max_boost_factor = 0.5\<rparr>
     \<lparr>scroll = (\<lambda>collection_name query_id. NoPoint),
      search = (\<lambda>collection_name query_vector query_filter limit.
                  Some [\<lparr>hit_image_id = Some ''img1'', hit_score = 0.4\<rparr>])\<rparr>
     ''Database_Initialized_Large'' [1] [''img1''] [(''img1'', 1)] 30
     = [Boosted ''img1'' 0.4 0.4 0 1]"
proof -
  let ?self = "\<lparr>private_test_mode = False, primary_checkpoint = ''Initialized'', enable_multi_model = True,
      model_weights = [], model_families = None, active_model_weights = None,
      active_families = None, article_to_images = [], article_ranking_boost = 0.3,
      rrf_k = 60, multi_model_rrf_k = 50, use_voting = False, use_sigmoid_boosting = True,
      similarity_weight = 10, rank_weight = 2.5, sigmoid_bias = 0, max_boost_factor = 0.5\<rparr>"
  let ?client = "\<lparr>scroll = (\<lambda>collection_name query_id. NoPoint),
      search = (\<lambda>collection_name query_vector query_filter limit.
                  Some [\<lparr>hit_image_id = Some ''img1'', hit_score = 0.4\<rparr>])\<rparr>"
  have mode: "use_sigmoid_boosting ?self" by simp
  have "boost_hits ?self [(''img1'', 1)] [\<lparr>hit_image_id = Some ''img1'', hit_score = 0.4\<rparr>]
          = Inr [Boosted ''img1'' (0.4 + 0) 0.4 0 1]"
    by (simp add: calculate_sigmoid_boost_def get_boost_explanation_def dict_get_def Let_def)
  then have run: "search_similar_images_with_ranking_boost ?self ?client
                    ''Database_Initialized_Large'' [1] [''img1''] [(''img1'', 1)] 30
                  = [Boosted ''img1'' 0.4 0.4 0 1]"
    by (simp add: search_similar_images_with_ranking_boost_def)
  from sigmoid_floor [OF mode, of "0.4" 1] have "calculate_sigmoid_boost ?self 0.4 1 = Inr 0"
    by simp
  with mode run show ?thesis by blast
qed

section \<open>The final CSV and the queries in it\<close>

text \<open>
  Claim C2 fails on the code. The header of the final CSV names ten image columns,
  \<open>range(1, 11)\<close>, while every data row gets fifty cells, \<open>range(50)\<close>: for one
  query with one image the row is the query id, the image and 49 sentinels under a header
  of 10 image columns. The empty slots do hold the sentinel.
\<close>

theorem final_csv_width_mismatch:
  "save_final_image_results [(''q1'', [''img1''])]
     = [[''query_id'', ''image_id_1'', ''image_id_2'', ''image_id_3'', ''image_id_4'',
         ''image_id_5'', ''image_id_6'', ''image_id_7'', ''image_id_8'', ''image_id_9'',
         ''image_id_10''],
        ''q1'' # ''img1'' # replicate 49 ''#'']
   \<and> length (tl (hd (save_final_image_results [(''q1'', [''img1''])]))) = 10
   \<and> length (tl (save_final_image_results [(''q1'', [''img1''])] ! 1)) = 50"
  by code_simp

text \<open>
  Claim C1 fails on the code. The filter of \<open>search_queries_without_articles\<close> drops
  the collections whose name starts with \<open>Query-\<close>, but the configuration builder names
  the raw-query views \<open>Query_..._Large\<close>, with an underscore. With the default
  configuration, a query without articles, and a store in which only
  \<open>Query_Initialized_Large\<close> has an embedding of the query, the fused list of the query
  holds the image found through that view.
\<close>

theorem query_view_not_bypassed:
  "run_image_search default_args query_view_store [(''q1'', [''#''])]
     = Inr [(''q1'', [''img1''])]"
  by code_simp

text \<open>
  Claim C3 fails on the code. Query \<open>q1\<close> has the stage-1 article \<open>a1\<close>, which maps
  to no image: \<open>search_queries_with_articles\<close> passes it over by \<open>continue\<close>, and the
  final CSV has no row for it. The neighbouring paths keep their query: \<open>q2\<close>, which
  has no article, and \<open>q3\<close>, whose article maps to an image but which has no embedding
  in any view, both get their all-sentinel row.
\<close>

theorem query_without_candidates_dropped:
  "run_image_stage
       (default_args\<lparr>arg_article_to_images := [(''a1'', []), (''a2'', [''img2''])]\<rparr>)
       query_view_store
       [(''q1'', [''a1'', ''#'']), (''q2'', [''#'', ''#'']), (''q3'', [''a2'', ''#''])]
     = Inr [final_header, ''q2'' # replicate 50 ''#'', ''q3'' # replicate 50 ''#'']"
  by code_simp

section \<open>Properties of the family aggregator\<close>

text \<open>
  The look-up \<open>family_data["results"].get(query_id, [])\<close> gives the family's list for
  the query, and the set of query ids collected from the families holds the queries of
  all of them.
\<close>

lemma family_list_conv: "dict_get (results data) q [] = family_list data q"
  by (simp add: dict_get_def family_list_def)

lemma set_unique_in_order: "set (unique_in_order seen xs) = set xs - set seen"
  by (induction xs arbitrary: seen) auto

lemma set_family_query_ids: "set (family_query_ids family_results) = family_queries family_results"
  by (auto simp: family_query_ids_def family_queries_def set_unique_in_order dict_keys_def
        dict_values_def)

lemma score_of_fold_add_term:
  "score_of (fold add_term ts d) a = score_of d a + (\<Sum>t\<leftarrow>ts. if fst t = a then snd t else 0)"
  by (induction ts arbitrary: d) (auto simp: add_term_def score_of_add_score)

lemma keys_fold_add_term:
  "fst ` set (fold add_term ts d) = fst ` set d \<union> fst ` set ts"
  by (induction ts arbitrary: d) (auto simp: add_term_def keys_add_score)

lemma distinct_fold_add_term:
  "distinct (map fst d) \<Longrightarrow> distinct (map fst (fold add_term ts d))"
  by (induction ts arbitrary: d) (auto simp: add_term_def distinct_add_score)

lemma top_images_fold:
  "top_images n (\<lambda>a. \<Sum>t\<leftarrow>ts. if fst t = a then snd t else 0) (fst ` set ts)
     (map fst (take n (sorted_desc (fold add_term ts []))))"
proof -
  let ?d = "fold add_term ts []"
  let ?ranked = "map fst (sorted_desc ?d)"
  have dist: "distinct (map fst ?d)"
    by (rule distinct_fold_add_term) simp
  have score: "score_of ?d a = (\<Sum>t\<leftarrow>ts. if fst t = a then snd t else 0)" for a
  proof -
    have "score_of ([] :: (string \<times> rat) list) a = 0" by (simp add: score_of_def)
    then show ?thesis by (simp add: score_of_fold_add_term)
  qed
  have "distinct ?ranked"
    using dist by (simp add: sorted_desc_props)
  moreover have "set ?ranked = fst ` set ts"
    using keys_fold_add_term [of ts "[]"] by (simp add: sorted_desc_props)
  moreover have "sorted_wrt (\<lambda>a b. (\<Sum>t\<leftarrow>ts. if fst t = b then snd t else 0)
                               \<le> (\<Sum>t\<leftarrow>ts. if fst t = a then snd t else 0)) ?ranked"
    using ranked_by_score [OF dist] by (simp only: score)
  moreover have "map fst (take n (sorted_desc ?d)) = take n ?ranked"
    by (simp add: take_map)
  ultimately show ?thesis
    unfolding top_images_def by blast
qed

lemma terms_from_enumerate:
  "terms_from voting k w rank images
     = map (\<lambda>(r, image_id). (image_id, family_term voting k w r)) (List.enumerate rank images)"
  by (induction images arbitrary: rank) simp_all

lemma zero_rank_step:
  "zero_rank voting k rank (Suc n) \<longleftrightarrow> (\<not> voting \<and> k + int rank = 0) \<or> zero_rank voting k (Suc rank) n"
proof -
  have "[rank ..< rank + Suc n] = rank # [Suc rank ..< Suc rank + n]"
    by (simp add: upt_conv_Cons)
  then show ?thesis by (auto simp: zero_rank_def simp del: upt_Suc)
qed

lemma zero_rank_0 [simp]: "\<not> zero_rank voting k rank 0"
  by (simp add: zero_rank_def)

lemma vote_family_char:
  "vote_family voting k final_top_k w rank images d =
     (let top = take (nat (final_top_k - int rank + 1)) images
      in if zero_rank voting k rank (length top) then Inl ZeroDivisionError
         else Inr (fold add_term (terms_from voting k w rank top) d))"
proof (induction images arbitrary: rank d)
  case Nil
  then show ?case by simp
next
  case (Cons image_id images)
  have step: "int rank + 1 = int (Suc rank)" "rank + 1 = Suc rank" by simp_all
  show ?case
  proof (cases "int rank \<le> final_top_k")
    case True
    then have n: "nat (final_top_k - int rank + 1) = Suc (nat (final_top_k - int (Suc rank) + 1))"
      by simp
    show ?thesis
      using True Cons.IH [of "Suc rank"]
      by (simp only: n vote_family.simps step take_Suc_Cons Let_def length_Cons
                     zero_rank_step terms_from.simps fold_simps)
         (auto simp: add_term_def family_term_def)
  next
    case False
    then have n: "nat (final_top_k - int rank + 1) = 0"
      and n': "nat (final_top_k - int (Suc rank) + 1) = 0" by simp_all
    show ?thesis
      using False Cons.IH [of "Suc rank" d]
      by (simp add: n n' del: of_nat_Suc)
  qed
qed

lemma terms_from_take:
  "terms_from voting k (data_weight data) (Suc 0)
     (take (nat final_top_k) (family_list data q))
     = family_terms voting k final_top_k q data"
  by (simp add: family_terms_def terms_from_enumerate)

lemma vote_families_char:
  "vote_families voting k final_top_k q family_results d =
     (if list_ex (family_zero_rank voting k final_top_k q) (map snd family_results)
      then Inl ZeroDivisionError
      else Inr (fold add_term
                  (concat (map (family_terms voting k final_top_k q) (map snd family_results)))
                  d))"
proof (induction family_results arbitrary: d)
  case Nil
  then show ?case by simp
next
  case (Cons fd family_results)
  obtain family_name data where fd: "fd = (family_name, data)" by (cases fd)
  have one: "vote_family voting k final_top_k (data_weight data) 1 (dict_get (results data) q []) d =
     (if family_zero_rank voting k final_top_k q data then Inl ZeroDivisionError
      else Inr (fold add_term (family_terms voting k final_top_k q data) d))"
    using vote_family_char [of voting k final_top_k "data_weight data" 1 "dict_get (results data) q []" d]
    by (simp add: Let_def family_zero_rank_def terms_from_take family_list_conv)
  show ?case
    using Cons.IH one by (simp add: fd)
qed

lemma no_contribution_below_zero:
  "final_top_k \<le> 0 \<Longrightarrow> family_terms voting k final_top_k q data = []"
  by (simp add: family_terms_def)

lemma py_take_sorted:
  assumes "final_top_k < 0 \<longrightarrow> xs = []"
  shows "py_take final_top_k xs = take (nat final_top_k) xs"
  using assms by (auto simp: py_take_def)

lemma multi_model_query_char:
  "multi_model_query voting k final_top_k family_results q =
     (if list_ex (family_zero_rank voting k final_top_k q) (map snd family_results)
      then Inl ZeroDivisionError
      else Inr (map fst (take (nat final_top_k) (sorted_desc (fold add_term
                  (concat (map (family_terms voting k final_top_k q) (map snd family_results)))
                  [])))))"
proof -
  let ?ts = "concat (map (family_terms voting k final_top_k q) (map snd family_results))"
  have "final_top_k < 0 \<longrightarrow> sorted_desc (fold add_term ?ts []) = []"
  proof
    assume "final_top_k < 0"
    then have "?ts = []"
      by (simp add: concat_eq_Nil_conv no_contribution_below_zero)
    then show "sorted_desc (fold add_term ?ts []) = []"
      by (simp only: fold_simps sorted_desc_def sort_key_simps)
  qed
  then have "py_take final_top_k (sorted_desc (fold add_term ?ts []))
               = take (nat final_top_k) (sorted_desc (fold add_term ?ts []))"
    by (rule py_take_sorted)
  then show ?thesis
    by (simp add: multi_model_query_def vote_families_char)
qed

lemma family_score_conv:
  "family_score voting k final_top_k family_results q a
     = (\<Sum>t\<leftarrow>concat (map (family_terms voting k final_top_k q) (map snd family_results)).
          if fst t = a then snd t else 0)"
proof -
  have "family_score voting k final_top_k family_results q a
          = (\<Sum>data\<leftarrow>map snd family_results.
               \<Sum>t\<leftarrow>family_terms voting k final_top_k q data. if fst t = a then snd t else 0)"
    unfolding family_score_def case_prod_unfold ..
  then show ?thesis by (simp only: sum_list_concat_map)
qed

lemma in_dict_set:
  "(q, v) \<in> set (dict_set k x d) \<Longrightarrow> (q = k \<and> v = x) \<or> (q, v) \<in> set d"
  by (induction d) (auto split: if_splits)

lemma keys_dict_set: "fst ` set (dict_set k x d) = insert k (fst ` set d)"
  by (induction d) force+

lemma multi_model_queries_Inr:
  "multi_model_queries voting k final_top_k family_results qs acc = Inr final \<Longrightarrow>
   (q, out) \<in> set final \<Longrightarrow>
   (q, out) \<in> set acc \<or> (q \<in> set qs \<and> multi_model_query voting k final_top_k family_results q = Inr out)"
proof (induction qs arbitrary: acc)
  case Nil
  then show ?case by simp
next
  case (Cons q' qs)
  from Cons.prems(1) obtain images
    where body: "multi_model_query voting k final_top_k family_results q' = Inr images"
      and rest: "multi_model_queries voting k final_top_k family_results qs
                   (dict_set q' images acc) = Inr final"
    by (auto split: sum.splits)
  from Cons.IH [OF rest Cons.prems(2)] body show ?case
    by (auto dest: in_dict_set)
qed

lemma multi_model_queries_total:
  "\<forall>q\<in>set qs. \<exists>out. multi_model_query voting k final_top_k family_results q = Inr out \<Longrightarrow>
   \<exists>final. multi_model_queries voting k final_top_k family_results qs acc = Inr final
            \<and> fst ` set final = fst ` set acc \<union> set qs"
proof (induction qs arbitrary: acc)
  case Nil
  then show ?case by simp
next
  case (Cons q' qs)
  then obtain images
    where body: "multi_model_query voting k final_top_k family_results q' = Inr images"
    by auto
  from Cons.IH [of "dict_set q' images acc"] Cons.prems body show ?case
    by (auto simp: keys_dict_set)
qed

lemma multi_model_queries_keys:
  "multi_model_queries voting k final_top_k family_results qs acc = Inr final \<Longrightarrow>
   fst ` set final = fst ` set acc \<union> set qs"
proof (induction qs arbitrary: acc)
  case Nil
  then show ?case by simp
next
  case (Cons q' qs)
  from Cons.prems obtain images
    where "multi_model_queries voting k final_top_k family_results qs
             (dict_set q' images acc) = Inr final"
    by (auto split: sum.splits)
  from Cons.IH [OF this] show ?case
    by (auto simp: keys_dict_set)
qed

lemma distinct_dict_set: "distinct (map fst d) \<Longrightarrow> distinct (map fst (dict_set k x d))"
  by (induction d) (auto simp: keys_dict_set)

lemma multi_model_queries_distinct:
  "multi_model_queries voting k final_top_k family_results qs acc = Inr final \<Longrightarrow>
   distinct (map fst acc) \<Longrightarrow> distinct (map fst final)"
proof (induction qs arbitrary: acc)
  case Nil
  then show ?case by simp
next
  case (Cons q' qs)
  from Cons.prems(1) obtain images
    where "multi_model_queries voting k final_top_k family_results qs
             (dict_set q' images acc) = Inr final"
    by (auto split: sum.splits)
  from Cons.IH [OF this] Cons.prems(2) show ?case
    by (simp add: distinct_dict_set)
qed

lemma zero_rank_nonneg: "0 \<le> k \<Longrightarrow> 0 < rank \<Longrightarrow> \<not> zero_rank voting k rank n"
  by (auto simp: zero_rank_def list_ex_iff)

text \<open>
  Claim C8. In cross-family aggregation, the list of a query in the result is the top
  \<open>final_top_k\<close> of the images by their fused score, the sum over the families of the
  terms of the first \<open>final_top_k\<close> entries of the family's ranked list for the query:
  \<open>w / (k_mm + rank)\<close> in RRF mode, \<open>w\<close> in voting mode. The result has one list for
  each query for which some family holds a list, and for no other; in voting mode, and in
  RRF mode with \<open>k_mm \<ge> 0\<close>, no division raises and the result is produced.
\<close>

theorem family_fusion:
  "(multi_model_rrf self family_results final_top_k voting = Inr final \<and> (q, out) \<in> set final \<longrightarrow>
      top_images (nat final_top_k)
        (family_score voting (multi_model_rrf_k self) final_top_k family_results q)
        (family_images voting (multi_model_rrf_k self) final_top_k family_results q) out)
   \<and> (multi_model_rrf self family_results final_top_k voting = Inr final \<longrightarrow>
        fst ` set final = family_queries family_results \<and> distinct (map fst final))
   \<and> ((voting \<or> 0 \<le> multi_model_rrf_k self) \<and> q \<in> family_queries family_results \<longrightarrow>
        (\<exists>final out. multi_model_rrf self family_results final_top_k voting = Inr final
                      \<and> (q, out) \<in> set final))"
proof (intro conjI impI)
  let ?k = "multi_model_rrf_k self"
  let ?ts = "concat (map (family_terms voting ?k final_top_k q) (map snd family_results))"
  assume "multi_model_rrf self family_results final_top_k voting = Inr final \<and> (q, out) \<in> set final"
  then have "multi_model_query voting ?k final_top_k family_results q = Inr out"
    using multi_model_queries_Inr [of voting ?k final_top_k family_results
                                      "family_query_ids family_results" "[]" final q out]
    by (simp add: multi_model_rrf_def)
  then have out: "out = map fst (take (nat final_top_k) (sorted_desc (fold add_term ?ts [])))"
    by (simp add: multi_model_query_char split: if_splits)
  have "family_score voting ?k final_top_k family_results q
          = (\<lambda>a. \<Sum>t\<leftarrow>?ts. if fst t = a then snd t else 0)"
    by (rule ext) (rule family_score_conv)
  moreover have "family_images voting ?k final_top_k family_results q = fst ` set ?ts"
    by (auto simp: family_images_def)
  ultimately show "top_images (nat final_top_k)
        (family_score voting ?k final_top_k family_results q)
        (family_images voting ?k final_top_k family_results q) out"
    using top_images_fold [of "nat final_top_k" ?ts] by (simp only: out)
next
  let ?k = "multi_model_rrf_k self"
  assume "multi_model_rrf self family_results final_top_k voting = Inr final"
  then have run: "multi_model_queries voting ?k final_top_k family_results
                    (family_query_ids family_results) [] = Inr final"
    by (simp add: multi_model_rrf_def)
  from multi_model_queries_keys [OF run]
  show "fst ` set final = family_queries family_results"
    by (simp add: set_family_query_ids)
  from multi_model_queries_distinct [OF run] show "distinct (map fst final)"
    by simp
next
  let ?k = "multi_model_rrf_k self"
  assume a: "(voting \<or> 0 \<le> ?k) \<and> q \<in> family_queries family_results"
  have "\<not> family_zero_rank voting ?k final_top_k q' data" for q' data
    using a by (auto simp: family_zero_rank_def zero_rank_nonneg) (simp add: zero_rank_def)
  then have "\<exists>out. multi_model_query voting ?k final_top_k family_results q' = Inr out" for q'
    by (simp add: multi_model_query_char list_ex_iff)
  then obtain final
    where "multi_model_queries voting ?k final_top_k family_results
             (family_query_ids family_results) [] = Inr final"
      and "fst ` set final = set (family_query_ids family_results)"
    using multi_model_queries_total [of "family_query_ids family_results" voting ?k final_top_k
                                        family_results "[]"]
    by auto
  with a show "\<exists>final out. multi_model_rrf self family_results final_top_k voting = Inr final
                            \<and> (q, out) \<in> set final"
    by (fastforce simp: multi_model_rrf_def set_family_query_ids)
qed

text \<open>
  Two families with the lists \<open>a, b, c\<close> and \<open>b, d\<close> for \<open>q1\<close>, and a width of 2: the
  third entry of the first family has no part, and \<open>b\<close>, which both hold, comes first.
  Only the second family holds \<open>q2\<close>, which has its list in the result.
\<close>

theorem family_fusion_witness:
  "multi_model_rrf two_database_pipeline two_family_results 2 False
     = Inr [(''q1'', [''b'', ''a'']), (''q2'', [''e''])]
   \<and> family_queries two_family_results = {''q1'', ''q2''}
   \<and> top_images 2
        (family_score False (multi_model_rrf_k two_database_pipeline) 2 two_family_results ''q1'')
        (family_images False (multi_model_rrf_k two_database_pipeline) 2 two_family_results ''q1'')
        [''b'', ''a'']
   \<and> top_images 2
        (family_score False (multi_model_rrf_k two_database_pipeline) 2 two_family_results ''q2'')
        (family_images False (multi_model_rrf_k two_database_pipeline) 2 two_family_results ''q2'')
        [''e'']"
proof -
  let ?final = "[(''q1'', [''b'', ''a'']), (''q2'', [''e''])]"
  have run: "multi_model_rrf two_database_pipeline two_family_results 2 False = Inr ?final"
    by code_simp
  note one = family_fusion [of two_database_pipeline two_family_results 2 False ?final
                               "''q1''" "[''b'', ''a'']"]
  note two = family_fusion [of two_database_pipeline two_family_results 2 False ?final
                               "''q2''" "[''e'']"]
  from one run
  have first: "top_images 2
        (family_score False (multi_model_rrf_k two_database_pipeline) 2 two_family_results ''q1'')
        (family_images False (multi_model_rrf_k two_database_pipeline) 2 two_family_results ''q1'')
        [''b'', ''a'']"
    by simp
  from two run
  have second: "top_images 2
        (family_score False (multi_model_rrf_k two_database_pipeline) 2 two_family_results ''q2'')
        (family_images False (multi_model_rrf_k two_database_pipeline) 2 two_family_results ''q2'')
        [''e'']"
    by simp
  from one run have "fst ` set ?final = family_queries two_family_results"
    by blast
  then have ids: "family_queries two_family_results = {''q1'', ''q2''}"
    by simp
  from run ids first second show ?thesis by blast
qed

section \<open>Collections and families of weight 0\<close>








text \<open>The image search does not read the family table, only the active families.\<close>

lemma calculate_sigmoid_boost_families [simp]:
  "calculate_sigmoid_boost (self\<lparr>model_families := x\<rparr>) s r = calculate_sigmoid_boost self s r"
  by (simp add: calculate_sigmoid_boost_def)

lemma get_boost_explanation_families [simp]:
  "get_boost_explanation (self\<lparr>model_families := x\<rparr>) s r b = get_boost_explanation self s r b"
  by (simp add: get_boost_explanation_def)

lemma boost_hits_families [simp]:
  "boost_hits (self\<lparr>model_families := x\<rparr>) m hs = boost_hits self m hs"
  by (induction hs) (simp_all add: Let_def split: sum.splits)

lemma search_with_boost_families [simp]:
  "search_similar_images_with_ranking_boost (self\<lparr>model_families := x\<rparr>) client c v cands m top_k
     = search_similar_images_with_ranking_boost self client c v cands m top_k"
  by (simp add: search_similar_images_with_ranking_boost_def split: option.splits sum.splits)

lemma active_collections_with_families [simp]:
  "active_collections_with (self\<lparr>model_families := x\<rparr>) cols = active_collections_with self cols"
  by (simp add: active_collections_with_def split: option.splits)

lemma search_queries_with_articles_families [simp]:
  "search_queries_with_articles (self\<lparr>model_families := x\<rparr>) client qs q2a cols sc top_k acc
     = search_queries_with_articles self client qs q2a cols sc top_k acc"
  by (induction qs arbitrary: acc) (simp_all add: Let_def split: option.splits prod.splits)

lemma optimized_collections_families [simp]:
  "optimized_collections (self\<lparr>model_families := x\<rparr>) cols = optimized_collections self cols"
  by (simp add: optimized_collections_def Let_def split: option.splits)

lemma search_queries_without_articles_families [simp]:
  "search_queries_without_articles (self\<lparr>model_families := x\<rparr>) client qs cols sc d f
     = search_queries_without_articles self client qs cols sc d f"
  by (simp add: search_queries_without_articles_def)

lemma aggregation_weights_families [simp]:
  "aggregation_weights (self\<lparr>model_families := x\<rparr>) = aggregation_weights self"
  by (simp add: aggregation_weights_def split: option.splits)

lemma aggregate_final_collections_families [simp]:
  "aggregate_final_collections (self\<lparr>model_families := x\<rparr>) sr voting
     = aggregate_final_collections self sr voting"
  by (simp add: aggregate_final_collections_def)

lemma family_search_families [simp]:
  "family_search (self\<lparr>model_families := x\<rparr>) client q2a qw qo cols sc d f
     = family_search self client q2a qw qo cols sc d f"
  by (simp add: family_search_def split: sum.splits)

lemma search_families_families [simp]:
  "search_families (self\<lparr>model_families := x\<rparr>) client q2a qw qo d f fams acc
     = search_families self client q2a qw qo d f fams acc"
  by (induction fams arbitrary: acc) (auto split: sum.splits)







end
